theory Spec2Isabelle
  imports Main
begin

section \<open>JavaScript numbers used by the server\<close>

text \<open>
  The server (\<^verbatim>\<open>server.js\<close>, final revision) computes with JavaScript numbers.  Every
  number that the modelled code handles is either an integer or \<^verbatim>\<open>NaN\<close>: time values of
  \<^verbatim>\<open>Date\<close> objects and \<^verbatim>\<open>Date.now()\<close> are integral milliseconds, and \<^verbatim>\<open>parseInt\<close> returns an
  integer or \<^verbatim>\<open>NaN\<close>.  Time values are modelled by \<^typ>\<open>int\<close>; the arithmetic of
  \<^verbatim>\<open>getRemainingParts\<close> is exact on doubles as long as the difference of the two time
  values stays below \<open>2^53\<close> milliseconds (about 285 000 years), which holds for every
  target date that \<^verbatim>\<open>Date\<close> can represent and every clock reading after 1970.
\<close>

definition math_floor_div :: "int \<Rightarrow> int \<Rightarrow> int" where
  \<comment> \<open>\<^verbatim>\<open>Math.floor(a / b)\<close> for integers \<open>a\<close> and \<open>b > 0\<close>.\<close>
  "math_floor_div a b = a div b"

definition js_rem :: "int \<Rightarrow> int \<Rightarrow> int" where
  \<comment> \<open>The operator \<^verbatim>\<open>%\<close>: the result has the sign of the dividend.\<close>
  "js_rem a b = (if 0 \<le> a then a mod b else - ((- a) mod b))"

section \<open>Time source\<close>

record remaining =
  days :: int
  hours :: int
  mins :: int
  secs :: int
  is_done :: bool

text \<open>
  \<^verbatim>\<open>getRemainingParts(now)\<close>, lines 197--208.  \<open>TARGET\<close> is the time value of the constant
  \<^verbatim>\<open>TARGET\<close>, read once from the environment; \<open>now\<close> is \<^verbatim>\<open>now.getTime()\<close>.  The field
  \<^verbatim>\<open>done\<close> of the source is \<open>is_done\<close> here.
\<close>

definition getRemainingParts :: "int \<Rightarrow> int \<Rightarrow> remaining" where
  "getRemainingParts TARGET now =
     (let diffMs = TARGET - now in
      if diffMs \<le> 0 then \<lparr>days = 0, hours = 0, mins = 0, secs = 0, is_done = True\<rparr>
      else
        let totalSeconds = math_floor_div diffMs 1000;
            d = math_floor_div totalSeconds 86400;
            h = math_floor_div (js_rem totalSeconds 86400) 3600;
            m = math_floor_div (js_rem totalSeconds 3600) 60;
            s = js_rem totalSeconds 60
        in \<lparr>days = d, hours = h, mins = m, secs = s, is_done = False\<rparr>)"

section \<open>Numbers that may be \<^verbatim>\<open>NaN\<close>, and their text\<close>

datatype jsnum = NaN | Num int

fun math_max :: "jsnum \<Rightarrow> jsnum \<Rightarrow> jsnum" where
  \<comment> \<open>\<^verbatim>\<open>Math.max\<close>: \<^verbatim>\<open>NaN\<close> as soon as one argument is.\<close>
  "math_max (Num a) (Num b) = Num (max a b)"
| "math_max _ _ = NaN"

fun math_min :: "jsnum \<Rightarrow> jsnum \<Rightarrow> jsnum" where
  "math_min (Num a) (Num b) = Num (min a b)"
| "math_min _ _ = NaN"

fun js_less :: "jsnum \<Rightarrow> jsnum \<Rightarrow> bool" where
  \<comment> \<open>The operator \<^verbatim>\<open><\<close>: false when an operand is \<^verbatim>\<open>NaN\<close>.\<close>
  "js_less (Num a) (Num b) = (a < b)"
| "js_less _ _ = False"

definition digit_char :: "nat \<Rightarrow> char" where
  "digit_char d = char_of (48 + d)"

fun decimal :: "nat \<Rightarrow> string" where
  "decimal n = (if n < 10 then [digit_char n] else decimal (n div 10) @ [digit_char (n mod 10)])"

declare decimal.simps [simp del]

definition String_of_int :: "int \<Rightarrow> string" where
  \<comment> \<open>\<^verbatim>\<open>String(n)\<close> for an integer below \<open>10^21\<close> in absolute value.\<close>
  "String_of_int n = (if n < 0 then CHR ''-'' # decimal (nat (- n)) else decimal (nat n))"

fun String_of_num :: "jsnum \<Rightarrow> string" where
  "String_of_num NaN = ''NaN''"
| "String_of_num (Num n) = String_of_int n"

definition padStart :: "nat \<Rightarrow> char \<Rightarrow> string \<Rightarrow> string" where
  \<comment> \<open>\<^verbatim>\<open>s.padStart(n, c)\<close> with a one-character filler: pads, never cuts.\<close>
  "padStart n c s = replicate (n - length s) c @ s"

definition pad2 :: "int \<Rightarrow> string" where
  \<comment> \<open>Line 195: \<^verbatim>\<open>String(n).padStart(2, "0")\<close>.\<close>
  "pad2 n = padStart 2 (CHR ''0'') (String_of_int n)"

definition two_digits :: "int \<Rightarrow> string" where
  \<comment> \<open>The specification's words: the two decimal digits of a number below 100, tens first.\<close>
  "two_digits n = [digit_char (nat n div 10), digit_char (nat n mod 10)]"

section \<open>Frame renderer\<close>

text \<open>
  \<^verbatim>\<open>drawCountdownFrame(ctx, {width, height}, now)\<close>, lines 214--285, paints a white
  background, a border, a divider, the title, four numbers and four captions.  Every
  coordinate, line width and font size is a (floating-point) function of \<open>width\<close> and
  \<open>height\<close> alone, and every style the function uses is set before it is used, so what is on
  the canvas after the call is determined by the two dimensions and the texts handed to
  \<^verbatim>\<open>ctx.fillText\<close>.  The model records exactly these: the picture is the record below, with
  the texts in the order of the calls.
\<close>

record frame =
  frame_width :: jsnum
  frame_height :: jsnum
  title_text :: string
  digit_texts :: "string list"
  label_texts :: "string list"

definition drawCountdownFrame :: "int \<Rightarrow> jsnum \<Rightarrow> jsnum \<Rightarrow> int \<Rightarrow> frame" where
  "drawCountdownFrame TARGET width height now =
     (let r = getRemainingParts TARGET now;
          values = [pad2 (days r), pad2 (hours r), pad2 (mins r), pad2 (secs r)];
          labels = [''DAYS'', ''HOURS'', ''MINUTES'', ''SECONDS''];
          colCount = 4
      in \<lparr>frame_width = width, frame_height = height,
          title_text = ''TIME TO NEXT AUCTION'',
          digit_texts = map (\<lambda>i. values ! i) [0..<colCount],
          label_texts = map (\<lambda>i. labels ! i) [0..<colCount]\<rparr>)"

section \<open>Animation builder\<close>

text \<open>
  \<^verbatim>\<open>buildCountdownGIF({width, height, seconds})\<close>, lines 299--321.  The encoder is driven
  by \<^verbatim>\<open>setRepeat(0)\<close>, \<^verbatim>\<open>setDelay(1000)\<close>, \<^verbatim>\<open>setQuality(10)\<close> and one \<^verbatim>\<open>addFrame\<close> per
  iteration; the buffer it returns is a function of these calls, so the model takes the
  record of them as the animation.  \<open>wall\<close> is the time value of \<^verbatim>\<open>new Date()\<close> on line 310.
\<close>

record gif =
  gif_width :: jsnum
  gif_height :: jsnum
  repeat :: int
  delay :: int
  quality :: int
  frames :: "frame list"

definition setMilliseconds0 :: "int \<Rightarrow> int" where
  \<comment> \<open>\<^verbatim>\<open>start.setMilliseconds(0)\<close>: the millisecond field (a floor remainder) is cleared.\<close>
  "setMilliseconds0 t = t - t mod 1000"

function addFrames :: "int \<Rightarrow> jsnum \<Rightarrow> jsnum \<Rightarrow> int \<Rightarrow> jsnum \<Rightarrow> int \<Rightarrow> frame list \<Rightarrow> frame list" where
  \<comment> \<open>The loop of lines 313--317; \<open>enc\<close> holds the frames added so far.\<close>
  "addFrames TARGET width height start seconds i enc =
     (if js_less (Num i) seconds then
        let frameTime = start + i * 1000
        in addFrames TARGET width height start seconds (i + 1)
             (enc @ [drawCountdownFrame TARGET width height frameTime])
      else enc)"
  by pat_completeness auto
termination
  by (relation "measure (\<lambda>(TARGET, width, height, start, seconds, i, enc).
         case seconds of NaN \<Rightarrow> 0 | Num n \<Rightarrow> nat (n - i))")
     (auto split: jsnum.splits)

declare addFrames.simps [simp del]

definition buildCountdownGIF :: "int \<Rightarrow> int \<Rightarrow> jsnum \<Rightarrow> jsnum \<Rightarrow> jsnum \<Rightarrow> gif" where
  "buildCountdownGIF TARGET wall width height seconds =
     (let start = setMilliseconds0 wall
      in \<lparr>gif_width = width, gif_height = height, repeat = 0, delay = 1000, quality = 10,
          frames = addFrames TARGET width height start seconds 0 []\<rparr>)"

section \<open>Request parameters\<close>

text \<open>
  \<^verbatim>\<open>req.query.w\<close> is \<^verbatim>\<open>undefined\<close> when the parameter is absent, a string when it is given
  once, and an array or object for the bracket forms of the query parser.  An array or
  object is truthy and is turned into text by \<^verbatim>\<open>parseInt\<close>; \<open>QObject\<close> carries that text.
  Characters are those below 256.
\<close>

datatype qvalue = Undefined | QString string | QObject string

fun or_default :: "qvalue \<Rightarrow> string \<Rightarrow> string" where
  \<comment> \<open>\<^verbatim>\<open>q || d\<close>, as the text that \<^verbatim>\<open>parseInt\<close> then reads: the empty string is falsy.\<close>
  "or_default Undefined d = d"
| "or_default (QString s) d = (if s = [] then d else s)"
| "or_default (QObject s) d = s"

definition is_space :: "char \<Rightarrow> bool" where
  \<comment> \<open>White space and line terminators: TAB, LF, VT, FF, CR, SP, NBSP.\<close>
  "is_space c = (c \<in> set [CHR 0x09, CHR 0x0A, CHR 0x0B, CHR 0x0C, CHR 0x0D, CHR 0x20, CHR 0xA0])"

definition is_digit :: "char \<Rightarrow> bool" where
  "is_digit c = (c \<in> set ''0123456789'')"

definition digit_value :: "char \<Rightarrow> int" where
  "digit_value c = int (of_char c) - 48"

definition parseInt10 :: "string \<Rightarrow> jsnum" where
  \<comment> \<open>\<^verbatim>\<open>parseInt(s, 10)\<close>: leading white space, an optional sign, then the longest run of
      digits; \<^verbatim>\<open>NaN\<close> when that run is empty.\<close>
  "parseInt10 str =
     (let S = dropWhile is_space str;
          sign = (if S \<noteq> [] \<and> hd S = CHR ''-'' then - 1 else 1);
          S' = (if S \<noteq> [] \<and> (hd S = CHR ''+'' \<or> hd S = CHR ''-'') then tl S else S);
          Z = takeWhile is_digit S'
      in if Z = [] then NaN
         else Num (sign * foldl (\<lambda>acc c. acc * 10 + digit_value c) 0 Z))"

definition clamp_param :: "qvalue \<Rightarrow> string \<Rightarrow> int \<Rightarrow> int \<Rightarrow> jsnum" where
  \<comment> \<open>\<^verbatim>\<open>Math.min(Math.max(parseInt(q || d, 10), lo), hi)\<close>, lines 362--366.\<close>
  "clamp_param q d lo hi = math_min (math_max (parseInt10 (or_default q d)) (Num lo)) (Num hi)"

record query =
  query_w :: qvalue
  query_h :: qvalue
  query_s :: qvalue

definition param_w :: "'a query_scheme \<Rightarrow> jsnum" where
  "param_w q = clamp_param (query_w q) ''640'' 320 1200"

definition param_h :: "'a query_scheme \<Rightarrow> jsnum" where
  "param_h q = clamp_param (query_h q) ''200'' 140 600"

definition param_s :: "'a query_scheme \<Rightarrow> jsnum" where
  "param_s q = clamp_param (query_s q) ''60'' 10 120"

definition gifKey :: "jsnum \<Rightarrow> jsnum \<Rightarrow> jsnum \<Rightarrow> string" where
  \<comment> \<open>Lines 331--333: the template \<^verbatim>\<open>${w}x${h}_s${s}\<close>.\<close>
  "gifKey w h s = String_of_num w @ ''x'' @ String_of_num h @ ''_s'' @ String_of_num s"

section \<open>Render cache and build coordinator\<close>

text \<open>
  The handler of \<^verbatim>\<open>GET /countdown.gif\<close>, lines 361--415, with the two maps it shares between
  requests.  The buffer of an animation is represented by the record of the encoder calls
  that produced it.  A promise is settled when the handler first holds it: the function
  called on lines 399--403 is \<^verbatim>\<open>async\<close> but contains no \<^verbatim>\<open>await\<close>, so its body, the call of
  \<^verbatim>\<open>buildCountdownGIF\<close> included, has run to its end when the call returns.

  \<open>trace\<close> is an observer added to the state: the calls of \<^verbatim>\<open>buildCountdownGIF\<close>,
  \<^verbatim>\<open>gifCache.set\<close>, \<^verbatim>\<open>gifInFlight.set\<close> and \<^verbatim>\<open>gifInFlight.delete\<close>, in the order in which they
  are executed.
\<close>

type_synonym key = string

record cache_entry =
  buf :: gif
  expiresAt :: int

datatype promise = Resolved gif | Rejected

datatype effect = Render key | CacheSet key | Register key | Unregister key

record server =
  gifCache :: "key \<rightharpoonup> cache_entry"
  gifInFlight :: "key \<rightharpoonup> promise"
  trace :: "effect list"

datatype response = Body gif | Status500

text \<open>
  A handler that has reached an \<^verbatim>\<open>await\<close> is suspended with the promise it waits for: on
  line 390 as a joiner of a build that another request registered, on line 408 as the
  owner of the build it made itself.
\<close>

datatype suspended = Joiner key promise | Owner key promise

datatype outcome = Replied response | Awaiting suspended

text \<open>
  A request carries, beside its query, what the handler reads from its environment:
  \<open>date_now\<close> is \<^verbatim>\<open>Date.now()\<close> on line 379, \<open>build_clock\<close> is \<^verbatim>\<open>new Date()\<close> inside
  \<^verbatim>\<open>buildCountdownGIF\<close>, and \<open>build_throws\<close> tells whether the canvas or the encoder
  throws during the build.  The last two matter only when the request builds.
\<close>

record gif_request = query +
  date_now :: int
  build_clock :: int
  build_throws :: bool

definition request_key :: "gif_request \<Rightarrow> key" where
  "request_key rq = gifKey (param_w rq) (param_h rq) (param_s rq)"

definition start_server :: server where
  "start_server = \<lparr>gifCache = Map.empty, gifInFlight = Map.empty, trace = []\<rparr>"

definition record_effect :: "effect \<Rightarrow> server \<Rightarrow> server" where
  "record_effect e st = st\<lparr>trace := trace st @ [e]\<rparr>"

definition async_build :: "int \<Rightarrow> server \<Rightarrow> gif_request \<Rightarrow> server \<times> promise" where
  \<comment> \<open>Lines 399--403: the call of the \<^verbatim>\<open>async\<close> function, body and all.\<close>
  "async_build TARGET st rq =
     (let key = request_key rq;
          st1 = record_effect (Render key) st
      in if build_throws rq then (st1, Rejected)
         else
           let b = buildCountdownGIF TARGET (build_clock rq) (param_w rq) (param_h rq) (param_s rq);
               st2 = st1\<lparr>gifCache := (gifCache st1)(key \<mapsto>
                        \<lparr>buf = b, expiresAt = date_now rq + 60000\<rparr>)\<rparr>
           in (record_effect (CacheSet key) st2, Resolved b))"

definition gif_miss :: "int \<Rightarrow> server \<Rightarrow> gif_request \<Rightarrow> server \<times> outcome" where
  \<comment> \<open>Lines 387--408, up to the \<^verbatim>\<open>await\<close>.\<close>
  "gif_miss TARGET st rq =
     (let key = request_key rq in
      case gifInFlight st key of
        Some p \<Rightarrow> (st, Awaiting (Joiner key p))
      | None \<Rightarrow>
          let (st1, buildPromise) = async_build TARGET st rq;
              st2 = st1\<lparr>gifInFlight := (gifInFlight st1)(key \<mapsto> buildPromise)\<rparr>
          in (record_effect (Register key) st2, Awaiting (Owner key buildPromise)))"

definition gif_arrive :: "int \<Rightarrow> server \<Rightarrow> gif_request \<Rightarrow> server \<times> outcome" where
  \<comment> \<open>Lines 361--408: the handler from its start to its first \<^verbatim>\<open>await\<close> or reply.\<close>
  "gif_arrive TARGET st rq =
     (let key = request_key rq; now = date_now rq in
      case gifCache st key of
        Some cached \<Rightarrow>
          if expiresAt cached > now then (st, Replied (Body (buf cached)))
          else gif_miss TARGET st rq
      | None \<Rightarrow> gif_miss TARGET st rq)"

definition unregister :: "key \<Rightarrow> server \<Rightarrow> server" where
  \<comment> \<open>\<^verbatim>\<open>gifInFlight.delete(key)\<close>\<close>
  "unregister key st =
     record_effect (Unregister key) (st\<lparr>gifInFlight := (gifInFlight st)(key := None)\<rparr>)"

fun gif_resume :: "server \<Rightarrow> suspended \<Rightarrow> server \<times> response" where
  \<comment> \<open>The handler after its \<^verbatim>\<open>await\<close>: lines 390--395 for a joiner, 408--414 for the owner.\<close>
  "gif_resume st (Joiner key (Resolved b)) = (st, Body b)"
| "gif_resume st (Joiner key Rejected) = (unregister key st, Status500)"
| "gif_resume st (Owner key (Resolved b)) = (unregister key st, Body b)"
| "gif_resume st (Owner key Rejected) = (unregister key st, Status500)"

text \<open>
  The event loop.  A handler runs without interruption up to its \<^verbatim>\<open>await\<close>; what follows the
  \<^verbatim>\<open>await\<close> of a settled promise is a microtask, and the microtask queue is emptied, first
  in first out, before the loop takes the next request from the network.  One turn of the
  loop therefore starts the handlers of the requests it has read (one request, or several
  that were pipelined on a connection and arrived together), then resumes them in the same
  order.  Requests that arrive meanwhile on other connections, while a build keeps the
  thread busy, are served by later turns.
\<close>

fun dispatch :: "int \<Rightarrow> server \<Rightarrow> gif_request list \<Rightarrow> server \<times> outcome list" where
  "dispatch TARGET st [] = (st, [])"
| "dispatch TARGET st (rq # rqs) =
     (let (st1, oc) = gif_arrive TARGET st rq;
          (st2, ocs) = dispatch TARGET st1 rqs
      in (st2, oc # ocs))"

fun drain :: "server \<Rightarrow> outcome list \<Rightarrow> server \<times> response list" where
  "drain st [] = (st, [])"
| "drain st (Replied r # ocs) =
     (let (st1, rs) = drain st ocs in (st1, r # rs))"
| "drain st (Awaiting k # ocs) =
     (let (st1, r) = gif_resume st k;
          (st2, rs) = drain st1 ocs
      in (st2, r # rs))"

definition turn :: "int \<Rightarrow> server \<Rightarrow> gif_request list \<Rightarrow> server \<times> response list" where
  "turn TARGET st rqs = (let (st1, ocs) = dispatch TARGET st rqs in drain st1 ocs)"

fun serve :: "int \<Rightarrow> server \<Rightarrow> gif_request list list \<Rightarrow> server \<times> response list list" where
  "serve TARGET st [] = (st, [])"
| "serve TARGET st (rqs # later) =
     (let (st1, rs) = turn TARGET st rqs;
          (st2, rss) = serve TARGET st1 later
      in (st2, rs # rss))"

definition builds :: "server \<Rightarrow> key \<Rightarrow> nat" where
  \<comment> \<open>How often \<^verbatim>\<open>buildCountdownGIF\<close> has been called for a key.\<close>
  "builds st key = count_list (trace st) (Render key)"

definition plain_request :: "int \<Rightarrow> int \<Rightarrow> bool \<Rightarrow> gif_request" where
  \<comment> \<open>\<^verbatim>\<open>GET /countdown.gif\<close> without a query string.\<close>
  "plain_request now clock throws =
     \<lparr>query_w = Undefined, query_h = Undefined, query_s = Undefined,
      date_now = now, build_clock = clock, build_throws = throws\<rparr>"

fun owner_keys :: "outcome list \<Rightarrow> key list" where
  \<comment> \<open>The keys whose builds are owned by handlers suspended in a turn.\<close>
  "owner_keys [] = []"
| "owner_keys (Awaiting (Owner key p) # ocs) = key # owner_keys ocs"
| "owner_keys (oc # ocs) = owner_keys ocs"

definition fresh :: "server \<Rightarrow> key \<Rightarrow> int \<Rightarrow> bool" where
  \<comment> \<open>The test of line 383.\<close>
  "fresh st key now = (case gifCache st key of None \<Rightarrow> False | Some cached \<Rightarrow> expiresAt cached > now)"

section \<open>Properties of the time source\<close>

lemma js_rem_nonneg: "0 \<le> a \<Longrightarrow> js_rem a b = a mod b"
  by (simp add: js_rem_def)

lemma total_seconds_nonneg: "now < TARGET \<Longrightarrow> 0 \<le> math_floor_div (TARGET - now) 1000"
  by (simp add: math_floor_div_def)

lemma getRemainingParts_running:
  assumes "now < TARGET"
  shows "getRemainingParts TARGET now =
           \<lparr>days = ((TARGET - now) div 1000) div 86400,
            hours = (((TARGET - now) div 1000) mod 86400) div 3600,
            mins = (((TARGET - now) div 1000) mod 3600) div 60,
            secs = ((TARGET - now) div 1000) mod 60,
            is_done = False\<rparr>"
proof -
  have t: "0 \<le> (TARGET - now) div 1000" using assms by simp
  show ?thesis
    using assms t by (simp add: getRemainingParts_def Let_def math_floor_div_def js_rem_def)
qed

lemma split_seconds:
  fixes t :: int
  shows "(t div 86400) * 86400 + ((t mod 86400) div 3600) * 3600
           + ((t mod 3600) div 60) * 60 + t mod 60 = t"
proof -
  have a: "t mod 3600 = (t mod 86400) mod 3600"
    by (simp add: mod_mod_cancel)
  have b: "t mod 60 = (t mod 3600) mod 60"
    by (simp add: mod_mod_cancel)
  have c: "((t mod 3600) div 60) * 60 + (t mod 3600) mod 60 = t mod 3600"
    by simp
  have d: "((t mod 86400) div 3600) * 3600 + (t mod 86400) mod 3600 = t mod 86400"
    by simp
  have e: "(t div 86400) * 86400 + t mod 86400 = t"
    by simp
  show ?thesis using a b c d e by linarith
qed

text \<open>
  C5.  Before the deadline the four fields rebuild the whole number of seconds that remain,
  \<open>days * 86400 + hours * 3600 + mins * 60 + secs = floor ((TARGET - now) / 1000)\<close>, with
  \<open>hours < 24\<close>, \<open>mins < 60\<close>, \<open>secs < 60\<close> and no field negative; days is the quotient by
  86400, and hours, minutes and seconds are taken from the remainder that the previous
  division leaves (hours from the remainder by 86400, minutes from the remainder of that
  by 3600, seconds from the remainder of that by 60).
\<close>

theorem getRemainingParts_reconstructs:
  assumes "now < TARGET"
  shows "days (getRemainingParts TARGET now) * 86400
           + hours (getRemainingParts TARGET now) * 3600
           + mins (getRemainingParts TARGET now) * 60
           + secs (getRemainingParts TARGET now) = (TARGET - now) div 1000
         \<and> 0 \<le> days (getRemainingParts TARGET now)
         \<and> 0 \<le> hours (getRemainingParts TARGET now) \<and> hours (getRemainingParts TARGET now) < 24
         \<and> 0 \<le> mins (getRemainingParts TARGET now) \<and> mins (getRemainingParts TARGET now) < 60
         \<and> 0 \<le> secs (getRemainingParts TARGET now) \<and> secs (getRemainingParts TARGET now) < 60
         \<and> days (getRemainingParts TARGET now) = ((TARGET - now) div 1000) div 86400
         \<and> hours (getRemainingParts TARGET now) = (((TARGET - now) div 1000) mod 86400) div 3600
         \<and> mins (getRemainingParts TARGET now)
             = ((((TARGET - now) div 1000) mod 86400) mod 3600) div 60
         \<and> secs (getRemainingParts TARGET now)
             = ((((TARGET - now) div 1000) mod 86400) mod 3600) mod 60"
proof -
  define t where "t = (TARGET - now) div 1000"
  have t0: "0 \<le> t" using assms by (simp add: t_def)
  have r: "getRemainingParts TARGET now =
             \<lparr>days = t div 86400, hours = (t mod 86400) div 3600,
              mins = (t mod 3600) div 60, secs = t mod 60, is_done = False\<rparr>"
    using getRemainingParts_running [OF assms] by (simp add: t_def)
  have dv: "days (getRemainingParts TARGET now) = t div 86400"
    and hv: "hours (getRemainingParts TARGET now) = (t mod 86400) div 3600"
    and mv: "mins (getRemainingParts TARGET now) = (t mod 3600) div 60"
    and sv: "secs (getRemainingParts TARGET now) = t mod 60"
    by (simp_all add: r)
  have m1: "t mod 3600 = (t mod 86400) mod 3600" by (simp add: mod_mod_cancel)
  have m2: "t mod 60 = ((t mod 86400) mod 3600) mod 60" by (simp add: mod_mod_cancel)
  have total: "days (getRemainingParts TARGET now) * 86400
           + hours (getRemainingParts TARGET now) * 3600
           + mins (getRemainingParts TARGET now) * 60
           + secs (getRemainingParts TARGET now) = t"
    unfolding dv hv mv sv by (rule split_seconds)
  have d0: "0 \<le> days (getRemainingParts TARGET now)"
    unfolding dv using t0 by (simp add: pos_imp_zdiv_nonneg_iff)
  have h0: "0 \<le> hours (getRemainingParts TARGET now)"
    unfolding hv by (simp add: pos_imp_zdiv_nonneg_iff)
  have h1: "hours (getRemainingParts TARGET now) < 24"
    unfolding hv by simp
  have mi0: "0 \<le> mins (getRemainingParts TARGET now)"
    unfolding mv by (simp add: pos_imp_zdiv_nonneg_iff)
  have mi1: "mins (getRemainingParts TARGET now) < 60"
    unfolding mv by simp
  have s0: "0 \<le> secs (getRemainingParts TARGET now)"
    unfolding sv by simp
  have s1: "secs (getRemainingParts TARGET now) < 60"
    unfolding sv by simp
  have mv': "mins (getRemainingParts TARGET now) = ((t mod 86400) mod 3600) div 60"
    unfolding mv m1 [symmetric] by (rule refl)
  have sv': "secs (getRemainingParts TARGET now) = ((t mod 86400) mod 3600) mod 60"
    unfolding sv m2 [symmetric] by (rule refl)
  from total d0 h0 h1 mi0 mi1 s0 s1 dv hv mv' sv' show ?thesis
    unfolding t_def by blast
qed

theorem getRemainingParts_reconstructs_witness:
  "days (getRemainingParts 200000000 1000) * 86400
     + hours (getRemainingParts 200000000 1000) * 3600
     + mins (getRemainingParts 200000000 1000) * 60
     + secs (getRemainingParts 200000000 1000) = 199999
   \<and> getRemainingParts 200000000 1000
       = \<lparr>days = 2, hours = 7, mins = 33, secs = 19, is_done = False\<rparr>"
proof -
  have lt: "(1000::int) < 200000000" by simp
  have v: "getRemainingParts 200000000 1000
             = \<lparr>days = 2, hours = 7, mins = 33, secs = 19, is_done = False\<rparr>"
    by (simp add: getRemainingParts_def Let_def math_floor_div_def js_rem_def)
  show ?thesis
    using getRemainingParts_reconstructs [OF lt] v by simp
qed

text \<open>
  C6.  At the deadline and after it (\<open>TARGET \<le> now\<close>, that is \<open>diffMs \<le> 0\<close>) the result is
  the ordinary value with all four fields zero and the flag set; nothing is raised.
\<close>

theorem getRemainingParts_elapsed:
  assumes "TARGET \<le> now"
  shows "getRemainingParts TARGET now
           = \<lparr>days = 0, hours = 0, mins = 0, secs = 0, is_done = True\<rparr>"
  using assms by (simp add: getRemainingParts_def)

theorem getRemainingParts_elapsed_witness:
  "(5000::int) \<le> 5000
   \<and> getRemainingParts 5000 5000
       = \<lparr>days = 0, hours = 0, mins = 0, secs = 0, is_done = True\<rparr>
   \<and> getRemainingParts 5000 777777
       = \<lparr>days = 0, hours = 0, mins = 0, secs = 0, is_done = True\<rparr>"
proof -
  have a: "(5000::int) \<le> 5000" by simp
  have b: "(5000::int) \<le> 777777" by simp
  show ?thesis
    using getRemainingParts_elapsed [OF a] getRemainingParts_elapsed [OF b] by simp
qed

text \<open>
  C10.  In the last second before the deadline (\<open>0 < TARGET - now < 1000\<close>) the four fields
  are already zero, as they are once the deadline has passed, and only the flag tells the
  two states apart: it is still unset.
\<close>

theorem getRemainingParts_final_second:
  assumes "0 < TARGET - now" and "TARGET - now < 1000"
  shows "getRemainingParts TARGET now
           = \<lparr>days = 0, hours = 0, mins = 0, secs = 0, is_done = False\<rparr>"
proof -
  have lt: "now < TARGET" using assms(1) by simp
  have z: "(TARGET - now) div 1000 = 0" using assms by simp
  show ?thesis
    using getRemainingParts_running [OF lt] by (simp add: z)
qed

theorem getRemainingParts_final_second_witness:
  "(0::int) < 5000 - 4001 \<and> (5000::int) - 4001 < 1000
   \<and> getRemainingParts 5000 4001
       = \<lparr>days = 0, hours = 0, mins = 0, secs = 0, is_done = False\<rparr>
   \<and> getRemainingParts 5000 5000
       = \<lparr>days = 0, hours = 0, mins = 0, secs = 0, is_done = True\<rparr>"
proof -
  have a: "(0::int) < 5000 - 4001" by simp
  have b: "(5000::int) - 4001 < 1000" by simp
  have c: "getRemainingParts 5000 5000
             = \<lparr>days = 0, hours = 0, mins = 0, secs = 0, is_done = True\<rparr>"
    by (simp add: getRemainingParts_def)
  show ?thesis
    using getRemainingParts_final_second [OF a b] c by simp
qed

lemma getRemainingParts_bounds:
  "0 \<le> days (getRemainingParts TARGET now)
   \<and> 0 \<le> hours (getRemainingParts TARGET now) \<and> hours (getRemainingParts TARGET now) < 24
   \<and> 0 \<le> mins (getRemainingParts TARGET now) \<and> mins (getRemainingParts TARGET now) < 60
   \<and> 0 \<le> secs (getRemainingParts TARGET now) \<and> secs (getRemainingParts TARGET now) < 60"
proof (cases "now < TARGET")
  case True
  define t where "t = (TARGET - now) div 1000"
  have t: "0 \<le> t" using True by (simp add: t_def)
  have r: "getRemainingParts TARGET now =
             \<lparr>days = t div 86400, hours = (t mod 86400) div 3600,
              mins = (t mod 3600) div 60, secs = t mod 60, is_done = False\<rparr>"
    using getRemainingParts_running [OF True] by (simp add: t_def)
  have dv: "days (getRemainingParts TARGET now) = t div 86400"
    and hv: "hours (getRemainingParts TARGET now) = (t mod 86400) div 3600"
    and mv: "mins (getRemainingParts TARGET now) = (t mod 3600) div 60"
    and sv: "secs (getRemainingParts TARGET now) = t mod 60"
    by (simp_all add: r)
  have d0: "0 \<le> days (getRemainingParts TARGET now)"
    unfolding dv using t by (simp add: pos_imp_zdiv_nonneg_iff)
  have h0: "0 \<le> hours (getRemainingParts TARGET now)"
    unfolding hv by (simp add: pos_imp_zdiv_nonneg_iff)
  have h1: "hours (getRemainingParts TARGET now) < 24"
    unfolding hv by simp
  have m0: "0 \<le> mins (getRemainingParts TARGET now)"
    unfolding mv by (simp add: pos_imp_zdiv_nonneg_iff)
  have m1: "mins (getRemainingParts TARGET now) < 60"
    unfolding mv by simp
  have s0: "0 \<le> secs (getRemainingParts TARGET now)"
    unfolding sv by simp
  have s1: "secs (getRemainingParts TARGET now) < 60"
    unfolding sv by simp
  from d0 h0 h1 m0 m1 s0 s1 show ?thesis by blast
next
  case False
  then show ?thesis by (simp add: getRemainingParts_def)
qed

section \<open>Properties of the texts of a frame\<close>

lemma digit_char_values:
  "digit_char 0 = CHR ''0''" "digit_char 1 = CHR ''1''" "digit_char 2 = CHR ''2''"
  "digit_char 3 = CHR ''3''" "digit_char 4 = CHR ''4''" "digit_char 5 = CHR ''5''"
  "digit_char 6 = CHR ''6''" "digit_char 7 = CHR ''7''" "digit_char 8 = CHR ''8''"
  "digit_char 9 = CHR ''9''"
  by code_simp+

lemma decimal_one_digit: "n < 10 \<Longrightarrow> decimal n = [digit_char n]"
  by (simp add: decimal.simps)

lemma decimal_two_digits:
  assumes "10 \<le> n" and "n < 100"
  shows "decimal n = [digit_char (n div 10), digit_char (n mod 10)]"
proof -
  have q: "n div 10 < 10" using assms(2) by simp
  have "decimal n = decimal (n div 10) @ [digit_char (n mod 10)]"
    using assms(1) by (subst decimal.simps) simp
  then show ?thesis using decimal_one_digit [OF q] by simp
qed

lemma decimal_nonempty: "1 \<le> length (decimal n)"
  by (subst decimal.simps) simp

lemma decimal_three_digits:
  assumes "100 \<le> n"
  shows "3 \<le> length (decimal n)"
proof -
  have n1: "\<not> n < 10" using assms by simp
  have n2: "\<not> n div 10 < 10" using assms by simp
  have a: "decimal n = decimal (n div 10) @ [digit_char (n mod 10)]"
    by (subst decimal.simps) (simp only: n1 if_False)
  have b: "decimal (n div 10) = decimal (n div 10 div 10) @ [digit_char (n div 10 mod 10)]"
    by (subst decimal.simps) (simp only: n2 if_False)
  have "length (decimal n) = length (decimal (n div 10 div 10)) + 2"
    by (simp add: a b)
  then show ?thesis
    using decimal_nonempty [of "n div 10 div 10"] by linarith
qed

lemma pad2_two_digits:
  assumes "0 \<le> n" and "n < 100"
  shows "pad2 n = two_digits n"
proof (cases "n < 10")
  case True
  then have "decimal (nat n) = [digit_char (nat n)]"
    by (simp add: decimal_one_digit)
  then show ?thesis
    using assms True
    by (simp add: pad2_def padStart_def String_of_int_def two_digits_def digit_char_values)
next
  case False
  then have "decimal (nat n) = [digit_char (nat n div 10), digit_char (nat n mod 10)]"
    using assms by (simp add: decimal_two_digits)
  then show ?thesis
    using assms by (simp add: pad2_def padStart_def String_of_int_def two_digits_def)
qed

lemma pad2_length: "0 \<le> n \<Longrightarrow> 2 \<le> length (pad2 n)"
  using decimal_nonempty [of "nat n"]
  by (simp add: pad2_def padStart_def String_of_int_def)

lemma pad2_wide:
  assumes "100 \<le> n"
  shows "pad2 n = decimal (nat n) \<and> 3 \<le> length (pad2 n)"
proof -
  have "100 \<le> nat n" using assms by simp
  then have l: "3 \<le> length (decimal (nat n))" by (rule decimal_three_digits)
  then have "2 - length (decimal (nat n)) = 0" by simp
  then have "pad2 n = decimal (nat n)"
    using assms by (simp add: pad2_def padStart_def String_of_int_def)
  then show ?thesis using l by simp
qed

lemma drawCountdownFrame_texts:
  "digit_texts (drawCountdownFrame TARGET width height now) =
     [pad2 (days (getRemainingParts TARGET now)), pad2 (hours (getRemainingParts TARGET now)),
      pad2 (mins (getRemainingParts TARGET now)), pad2 (secs (getRemainingParts TARGET now))]"
  "label_texts (drawCountdownFrame TARGET width height now) =
     [''DAYS'', ''HOURS'', ''MINUTES'', ''SECONDS'']"
  by (simp_all add: drawCountdownFrame_def Let_def upt_rec)

lemma below_ten: "(d::nat) < 10 \<Longrightarrow> d \<in> {0, 1, 2, 3, 4, 5, 6, 7, 8, 9}"
  by auto

lemma digit_char_is_digit:
  assumes "d < 10"
  shows "is_digit (digit_char d)"
proof -
  have a: "is_digit (digit_char 0)" "is_digit (digit_char 1)" "is_digit (digit_char 2)"
    "is_digit (digit_char 3)" "is_digit (digit_char 4)" "is_digit (digit_char 5)"
    "is_digit (digit_char 6)" "is_digit (digit_char 7)" "is_digit (digit_char 8)"
    "is_digit (digit_char 9)"
    by code_simp+
  from below_ten [OF assms] a show ?thesis by auto
qed

lemma digit_char_value:
  assumes "d < 10"
  shows "digit_value (digit_char d) = int d"
proof -
  have a: "digit_value (digit_char 0) = 0" "digit_value (digit_char 1) = 1"
    "digit_value (digit_char 2) = 2" "digit_value (digit_char 3) = 3"
    "digit_value (digit_char 4) = 4" "digit_value (digit_char 5) = 5"
    "digit_value (digit_char 6) = 6" "digit_value (digit_char 7) = 7"
    "digit_value (digit_char 8) = 8" "digit_value (digit_char 9) = 9"
    by code_simp+
  from below_ten [OF assms] a show ?thesis by auto
qed

lemma is_digit_plain: "is_digit c \<Longrightarrow> \<not> is_space c \<and> c \<noteq> CHR ''-'' \<and> c \<noteq> CHR ''+''"
  by (auto simp: is_digit_def is_space_def)

lemma decimal_digits: "\<forall>c \<in> set (decimal n). is_digit c"
proof (induction n rule: decimal.induct)
  case (1 n)
  show ?case
  proof (cases "n < 10")
    case True
    then show ?thesis by (simp add: decimal_one_digit digit_char_is_digit)
  next
    case False
    have e: "decimal n = decimal (n div 10) @ [digit_char (n mod 10)]"
      by (subst decimal.simps) (simp only: False if_False)
    have "is_digit (digit_char (n mod 10))" by (rule digit_char_is_digit) simp
    then show ?thesis using 1 [OF False] by (simp add: e)
  qed
qed

lemma decimal_value: "foldl (\<lambda>acc c. acc * 10 + digit_value c) 0 (decimal n) = int n"
proof (induction n rule: decimal.induct)
  case (1 n)
  show ?case
  proof (cases "n < 10")
    case True
    then show ?thesis by (simp add: decimal_one_digit digit_char_value)
  next
    case False
    have e: "decimal n = decimal (n div 10) @ [digit_char (n mod 10)]"
      by (subst decimal.simps) (simp only: False if_False)
    have v: "digit_value (digit_char (n mod 10)) = int (n mod 10)"
      by (rule digit_char_value) simp
    have "foldl (\<lambda>acc c. acc * 10 + digit_value c) 0 (decimal n)
            = int (n div 10) * 10 + int (n mod 10)"
      using 1 [OF False] by (simp add: e v)
    also have "\<dots> = int n"
      by (simp add: of_nat_div of_nat_mod)
    finally show ?thesis .
  qed
qed

lemma parseInt10_digits:
  assumes "xs \<noteq> []" and "\<forall>c \<in> set xs. is_digit c"
  shows "parseInt10 xs = Num (foldl (\<lambda>acc c. acc * 10 + digit_value c) 0 xs)"
proof -
  obtain x ys where xs: "xs = x # ys" using assms(1) by (cases xs) auto
  have dx: "is_digit x" using assms(2) by (simp add: xs)
  have x: "\<not> is_space x" "x \<noteq> CHR ''-''" "x \<noteq> CHR ''+''"
    using is_digit_plain [OF dx] by simp_all
  have ty: "takeWhile is_digit ys = ys"
    using assms(2) by (simp add: takeWhile_eq_all_conv xs)
  show ?thesis
    by (simp add: parseInt10_def Let_def xs x dx ty)
qed

lemma pad2_digits:
  assumes "0 \<le> n"
  shows "\<forall>c \<in> set (pad2 n). is_digit c"
proof -
  have z: "is_digit CHR ''0''" by (simp add: is_digit_def)
  have p: "pad2 n = replicate (2 - length (decimal (nat n))) CHR ''0'' @ decimal (nat n)"
    using assms by (simp add: pad2_def padStart_def String_of_int_def)
  have "set (pad2 n) \<subseteq> {CHR ''0''} \<union> set (decimal (nat n))"
    unfolding p by (auto simp: set_replicate_conv_if)
  then show ?thesis using z decimal_digits [of "nat n"] by blast
qed

lemma pad2_reads_back:
  assumes "0 \<le> n"
  shows "parseInt10 (pad2 n) = Num n"
proof -
  have ne: "pad2 n \<noteq> []" using pad2_length [OF assms] by auto
  have v: "foldl (\<lambda>acc c. acc * 10 + digit_value c) 0 (pad2 n) = n"
  proof (cases "length (decimal (nat n)) < 2")
    case True
    then have l: "length (decimal (nat n)) = 1" using decimal_nonempty [of "nat n"] by simp
    then have p: "pad2 n = CHR ''0'' # decimal (nat n)"
      using assms by (simp add: pad2_def padStart_def String_of_int_def)
    have z: "digit_value CHR ''0'' = 0" by (simp add: digit_value_def)
    show ?thesis using decimal_value [of "nat n"] assms by (simp add: p z)
  next
    case False
    then have p: "pad2 n = decimal (nat n)"
      using assms by (simp add: pad2_def padStart_def String_of_int_def)
    show ?thesis using decimal_value [of "nat n"] assms by (simp add: p)
  qed
  show ?thesis
    using parseInt10_digits [OF ne pad2_digits [OF assms]] by (simp add: v)
qed

text \<open>
  C9, as stated, says that each of the four numbers drawn is a two-digit text.  \<open>pad2\<close> pads
  and never cuts, so with 100 days or more to go the days are drawn with all their digits:
  113 days, 23 hours, 36 minutes and 40 seconds before the deadline the first text is
  \<open>113\<close>, three characters long.
\<close>

theorem days_text_has_three_digits:
  "getRemainingParts 1769848200000 1760000000000
     = \<lparr>days = 113, hours = 23, mins = 36, secs = 40, is_done = False\<rparr>
   \<and> digit_texts (drawCountdownFrame 1769848200000 (Num 640) (Num 200) 1760000000000)
       = [''113'', ''23'', ''36'', ''40'']
   \<and> length (hd (digit_texts
        (drawCountdownFrame 1769848200000 (Num 640) (Num 200) 1760000000000))) = 3
   \<and> hd (digit_texts (drawCountdownFrame 1769848200000 (Num 640) (Num 200) 1760000000000))
       \<noteq> two_digits 113"
proof -
  have v: "getRemainingParts 1769848200000 1760000000000
             = \<lparr>days = 113, hours = 23, mins = 36, secs = 40, is_done = False\<rparr>"
    by (simp add: getRemainingParts_def Let_def math_floor_div_def js_rem_def)
  have p: "pad2 113 = ''113''" "pad2 23 = ''23''" "pad2 36 = ''36''" "pad2 40 = ''40''"
    by code_simp+
  have t: "two_digits 113 = [digit_char 11, digit_char 3]"
    by (simp add: two_digits_def)
  show ?thesis
    by (simp add: v drawCountdownFrame_texts p t)
qed

text \<open>
  C9, amended.  The four numbers that \<^verbatim>\<open>drawCountdownFrame\<close> writes are \<open>pad2\<close> of the days,
  hours, minutes and seconds that \<^verbatim>\<open>getRemainingParts\<close> returns for the frame's instant, in
  this order, and the four captions are DAYS, HOURS, MINUTES, SECONDS.  For hours, minutes
  and seconds always, and for days below 100, \<open>pad2\<close> is the zero-padded two-digit text,
  the tens digit followed by the units digit.  For 100 days or more it is the decimal
  number of the days in full, three digits or more, with nothing added and nothing cut.
  In every case the days text consists of digits only, has at least two of them, and
  reads back as the number of days.
\<close>

theorem drawCountdownFrame_digits_and_labels:
  "digit_texts (drawCountdownFrame TARGET width height now) =
     [pad2 (days (getRemainingParts TARGET now)), pad2 (hours (getRemainingParts TARGET now)),
      pad2 (mins (getRemainingParts TARGET now)), pad2 (secs (getRemainingParts TARGET now))]
   \<and> label_texts (drawCountdownFrame TARGET width height now) =
       [''DAYS'', ''HOURS'', ''MINUTES'', ''SECONDS'']
   \<and> pad2 (hours (getRemainingParts TARGET now)) = two_digits (hours (getRemainingParts TARGET now))
   \<and> pad2 (mins (getRemainingParts TARGET now)) = two_digits (mins (getRemainingParts TARGET now))
   \<and> pad2 (secs (getRemainingParts TARGET now)) = two_digits (secs (getRemainingParts TARGET now))
   \<and> (days (getRemainingParts TARGET now) < 100 \<longrightarrow>
        pad2 (days (getRemainingParts TARGET now)) = two_digits (days (getRemainingParts TARGET now)))
   \<and> (100 \<le> days (getRemainingParts TARGET now) \<longrightarrow>
        pad2 (days (getRemainingParts TARGET now)) = decimal (nat (days (getRemainingParts TARGET now)))
        \<and> 3 \<le> length (pad2 (days (getRemainingParts TARGET now))))
   \<and> parseInt10 (pad2 (days (getRemainingParts TARGET now)))
       = Num (days (getRemainingParts TARGET now))
   \<and> (\<forall>c \<in> set (pad2 (days (getRemainingParts TARGET now))). is_digit c)
   \<and> 2 \<le> length (pad2 (days (getRemainingParts TARGET now)))"
proof -
  note b = getRemainingParts_bounds [of TARGET now]
  have d0: "0 \<le> days (getRemainingParts TARGET now)" using b by blast
  have h: "pad2 (hours (getRemainingParts TARGET now)) = two_digits (hours (getRemainingParts TARGET now))"
    using b by (intro pad2_two_digits) auto
  have m: "pad2 (mins (getRemainingParts TARGET now)) = two_digits (mins (getRemainingParts TARGET now))"
    using b by (intro pad2_two_digits) auto
  have s: "pad2 (secs (getRemainingParts TARGET now)) = two_digits (secs (getRemainingParts TARGET now))"
    using b by (intro pad2_two_digits) auto
  have d: "days (getRemainingParts TARGET now) < 100 \<longrightarrow>
        pad2 (days (getRemainingParts TARGET now)) = two_digits (days (getRemainingParts TARGET now))"
    using b by (auto intro: pad2_two_digits)
  have w: "100 \<le> days (getRemainingParts TARGET now) \<longrightarrow>
        pad2 (days (getRemainingParts TARGET now)) = decimal (nat (days (getRemainingParts TARGET now)))
        \<and> 3 \<le> length (pad2 (days (getRemainingParts TARGET now)))"
    by (intro impI) (rule pad2_wide)
  have r: "parseInt10 (pad2 (days (getRemainingParts TARGET now)))
       = Num (days (getRemainingParts TARGET now))"
    by (rule pad2_reads_back [OF d0])
  have g: "\<forall>c \<in> set (pad2 (days (getRemainingParts TARGET now))). is_digit c"
    by (rule pad2_digits [OF d0])
  have l: "2 \<le> length (pad2 (days (getRemainingParts TARGET now)))"
    by (rule pad2_length [OF d0])
  from drawCountdownFrame_texts [of TARGET width height now] h m s d w r g l
  show ?thesis by blast
qed

theorem drawCountdownFrame_digits_and_labels_witness:
  "days (getRemainingParts 200000000 1000) < 100
   \<and> digit_texts (drawCountdownFrame 200000000 (Num 640) (Num 200) 1000)
       = [''02'', ''07'', ''33'', ''19'']
   \<and> label_texts (drawCountdownFrame 200000000 (Num 640) (Num 200) 1000)
       = [''DAYS'', ''HOURS'', ''MINUTES'', ''SECONDS'']
   \<and> 100 \<le> days (getRemainingParts 1769848200000 1750000000000)
   \<and> digit_texts (drawCountdownFrame 1769848200000 (Num 320) (Num 140) 1750000000000)
       = [''229'', ''17'', ''23'', ''20'']
   \<and> parseInt10 ''229'' = Num 229"
proof -
  have v: "getRemainingParts 200000000 1000
             = \<lparr>days = 2, hours = 7, mins = 33, secs = 19, is_done = False\<rparr>"
    by (simp add: getRemainingParts_def Let_def math_floor_div_def js_rem_def)
  have v': "getRemainingParts 1769848200000 1750000000000
             = \<lparr>days = 229, hours = 17, mins = 23, secs = 20, is_done = False\<rparr>"
    by (simp add: getRemainingParts_def Let_def math_floor_div_def js_rem_def)
  have t: "two_digits 2 = ''02''" "two_digits 7 = ''07''" "two_digits 33 = ''33''"
    "two_digits 19 = ''19''" "two_digits 17 = ''17''" "two_digits 23 = ''23''"
    "two_digits 20 = ''20''" "decimal 229 = ''229''"
    by code_simp+
  show ?thesis
    using drawCountdownFrame_digits_and_labels [of 200000000 "Num 640" "Num 200" 1000]
      drawCountdownFrame_digits_and_labels [of 1769848200000 "Num 320" "Num 140" 1750000000000]
    by (auto simp add: v v' t)
qed

section \<open>Properties of the animation builder\<close>


lemma addFrames_NaN: "addFrames TARGET width height start NaN i enc = enc"
  by (subst addFrames.simps) simp


section \<open>Properties of the request parameters\<close>

lemma parseInt10_examples:
  "parseInt10 ''640'' = Num 640" "parseInt10 ''200'' = Num 200" "parseInt10 ''60'' = Num 60"
  "parseInt10 ''50'' = Num 50" "parseInt10 ''9999'' = Num 9999"
  "parseInt10 ''5'' = Num 5" "parseInt10 ''500'' = Num 500"
  "parseInt10 ''-7'' = Num (- 7)" "parseInt10 '' 12px'' = Num 12"
  "parseInt10 ''abc'' = NaN" "parseInt10 '''' = NaN"
  by (simp_all add: parseInt10_def is_space_def is_digit_def digit_value_def)

lemma clamp_param_Num:
  "parseInt10 (or_default q d) = Num n \<Longrightarrow> clamp_param q d lo hi = Num (min (max n lo) hi)"
  by (simp add: clamp_param_def)

lemma clamp_param_NaN:
  "parseInt10 (or_default q d) = NaN \<Longrightarrow> clamp_param q d lo hi = NaN"
  by (simp add: clamp_param_def)

lemma clamp_param_range:
  assumes "lo \<le> hi"
  shows "clamp_param q d lo hi = NaN
         \<or> (\<exists>m. clamp_param q d lo hi = Num m \<and> lo \<le> m \<and> m \<le> hi)"
proof (cases "parseInt10 (or_default q d)")
  case NaN
  then show ?thesis by (simp add: clamp_param_NaN)
next
  case (Num n)
  then show ?thesis using assms by (simp add: clamp_param_Num)
qed

lemma clamping_examples:
  "param_w \<lparr>query_w = QString ''50'', query_h = Undefined, query_s = Undefined\<rparr> = Num 320"
  "param_w \<lparr>query_w = QString ''9999'', query_h = Undefined, query_s = Undefined\<rparr> = Num 1200"
  "param_s \<lparr>query_w = Undefined, query_h = Undefined, query_s = QString ''5''\<rparr> = Num 10"
  "param_s \<lparr>query_w = Undefined, query_h = Undefined, query_s = QString ''500''\<rparr> = Num 120"
  "param_w \<lparr>query_w = Undefined, query_h = Undefined, query_s = Undefined\<rparr> = Num 640"
  "param_h \<lparr>query_w = Undefined, query_h = Undefined, query_s = Undefined\<rparr> = Num 200"
  "param_s \<lparr>query_w = Undefined, query_h = Undefined, query_s = Undefined\<rparr> = Num 60"
  "param_w \<lparr>query_w = QString '''', query_h = Undefined, query_s = Undefined\<rparr> = Num 640"
  by (simp_all add: param_w_def param_h_def param_s_def clamp_param_def parseInt10_examples)

text \<open>
  C7.  The property asked for: whatever the query string, the parameters are brought into
  range and nothing is reported as an error, \<open>w\<close> in \<open>[320, 1200]\<close>, \<open>h\<close> in \<open>[140, 600]\<close>,
  \<open>s\<close> in \<open>[10, 120]\<close>, with 640, 200 and 60 when a parameter is absent.  The numeric
  examples and the defaults hold (\<open>clamping_examples\<close>), and a value that \<^verbatim>\<open>parseInt\<close> can
  read is always brought into range (\<open>clamp_param_Num\<close>).  A value that does not start with a
  number is not: for \<^verbatim>\<open>?w=abc\<close> the width handed to the canvas, the encoder and the cache
  key is \<^verbatim>\<open>NaN\<close>, since \<^verbatim>\<open>Math.max\<close> and \<^verbatim>\<open>Math.min\<close> pass \<^verbatim>\<open>NaN\<close> on.
\<close>

theorem param_w_not_clamped:
  "param_w \<lparr>query_w = QString ''abc'', query_h = Undefined, query_s = Undefined\<rparr> = NaN
   \<and> gifKey (param_w \<lparr>query_w = QString ''abc'', query_h = Undefined, query_s = Undefined\<rparr>)
         (param_h \<lparr>query_w = QString ''abc'', query_h = Undefined, query_s = Undefined\<rparr>)
         (param_s \<lparr>query_w = QString ''abc'', query_h = Undefined, query_s = Undefined\<rparr>)
       = ''NaNx200_s60''"
proof -
  have w: "param_w \<lparr>query_w = QString ''abc'', query_h = Undefined, query_s = Undefined\<rparr> = NaN"
    by (simp add: param_w_def clamp_param_def parseInt10_examples)
  have h: "param_h \<lparr>query_w = QString ''abc'', query_h = Undefined, query_s = Undefined\<rparr> = Num 200"
    by (simp add: param_h_def clamp_param_def parseInt10_examples)
  have s: "param_s \<lparr>query_w = QString ''abc'', query_h = Undefined, query_s = Undefined\<rparr> = Num 60"
    by (simp add: param_s_def clamp_param_def parseInt10_examples)
  have k: "gifKey NaN (Num 200) (Num 60) = ''NaNx200_s60''"
    by code_simp
  show ?thesis by (simp add: w h s k)
qed

section \<open>Properties of the handler and of a turn\<close>

lemma gif_arrive_hit:
  "gifCache st (request_key rq) = Some e \<Longrightarrow> date_now rq < expiresAt e \<Longrightarrow>
   gif_arrive TARGET st rq = (st, Replied (Body (buf e)))"
  by (simp add: gif_arrive_def)

lemma gif_arrive_miss:
  "\<not> fresh st (request_key rq) (date_now rq) \<Longrightarrow> gif_arrive TARGET st rq = gif_miss TARGET st rq"
  by (simp add: gif_arrive_def fresh_def split: option.splits)

lemma gif_miss_join:
  "gifInFlight st (request_key rq) = Some p \<Longrightarrow>
   gif_miss TARGET st rq = (st, Awaiting (Joiner (request_key rq) p))"
  by (simp add: gif_miss_def)

lemma gif_miss_build_ok:
  assumes "gifInFlight st (request_key rq) = None" and "\<not> build_throws rq"
  shows "gif_miss TARGET st rq =
    (st\<lparr>gifCache := (gifCache st)(request_key rq \<mapsto>
            \<lparr>buf = buildCountdownGIF TARGET (build_clock rq) (param_w rq) (param_h rq) (param_s rq),
             expiresAt = date_now rq + 60000\<rparr>),
         gifInFlight := (gifInFlight st)(request_key rq \<mapsto>
            Resolved (buildCountdownGIF TARGET (build_clock rq) (param_w rq) (param_h rq) (param_s rq))),
         trace := trace st @ [Render (request_key rq), CacheSet (request_key rq),
                              Register (request_key rq)]\<rparr>,
     Awaiting (Owner (request_key rq)
       (Resolved (buildCountdownGIF TARGET (build_clock rq) (param_w rq) (param_h rq) (param_s rq)))))"
  using assms by (simp add: gif_miss_def async_build_def record_effect_def Let_def)

lemma gif_miss_build_fail:
  assumes "gifInFlight st (request_key rq) = None" and "build_throws rq"
  shows "gif_miss TARGET st rq =
    (st\<lparr>gifInFlight := (gifInFlight st)(request_key rq \<mapsto> Rejected),
         trace := trace st @ [Render (request_key rq), Register (request_key rq)]\<rparr>,
     Awaiting (Owner (request_key rq) Rejected))"
  using assms by (simp add: gif_miss_def async_build_def record_effect_def Let_def)

lemma turn_single: "turn TARGET st [rq] =
   (case gif_arrive TARGET st rq of
      (st1, Replied r) \<Rightarrow> (st1, [r])
    | (st1, Awaiting k) \<Rightarrow> (fst (gif_resume st1 k), [snd (gif_resume st1 k)]))"
  by (simp add: turn_def split: prod.splits outcome.splits)

lemma turn_hit:
  assumes "gifCache st (request_key rq) = Some e" and "date_now rq < expiresAt e"
  shows "turn TARGET st [rq] = (st, [Body (buf e)])"
  by (simp add: turn_single gif_arrive_hit [OF assms])

lemma turn_build_ok:
  assumes "gifInFlight st (request_key rq) = None"
    and "\<not> fresh st (request_key rq) (date_now rq)" and "\<not> build_throws rq"
  shows "turn TARGET st [rq] =
    (st\<lparr>gifCache := (gifCache st)(request_key rq \<mapsto>
            \<lparr>buf = buildCountdownGIF TARGET (build_clock rq) (param_w rq) (param_h rq) (param_s rq),
             expiresAt = date_now rq + 60000\<rparr>),
         trace := trace st @ [Render (request_key rq), CacheSet (request_key rq),
                              Register (request_key rq), Unregister (request_key rq)]\<rparr>,
     [Body (buildCountdownGIF TARGET (build_clock rq) (param_w rq) (param_h rq) (param_s rq))])"
proof -
  have m: "(gifInFlight st)(request_key rq := None) = gifInFlight st"
    using assms(1) by (rule fun_upd_idem)
  show ?thesis
    by (simp add: turn_single gif_arrive_miss [OF assms(2)] gif_miss_build_ok [OF assms(1,3)]
        unregister_def record_effect_def m)
qed

lemma turn_build_fail:
  assumes "gifInFlight st (request_key rq) = None"
    and "\<not> fresh st (request_key rq) (date_now rq)" and "build_throws rq"
  shows "turn TARGET st [rq] =
    (st\<lparr>trace := trace st @ [Render (request_key rq), Register (request_key rq),
                              Unregister (request_key rq)]\<rparr>,
     [Status500])"
proof -
  have m: "(gifInFlight st)(request_key rq := None) = gifInFlight st"
    using assms(1) by (rule fun_upd_idem)
  show ?thesis
    by (simp add: turn_single gif_arrive_miss [OF assms(2)] gif_miss_build_fail [OF assms(1,3)]
        unregister_def record_effect_def m)
qed

lemma fresh_cache_cong: "gifCache st' = gifCache st \<Longrightarrow> fresh st' k t = fresh st k t"
  by (simp add: fresh_def)

lemma count_list_replicate_other: "a \<noteq> b \<Longrightarrow> count_list (replicate n a) b = 0"
  by (induction n) simp_all

lemma turn_build_counts:
  assumes "gifInFlight st (request_key rq) = None"
    and "\<not> fresh st (request_key rq) (date_now rq)"
  shows "builds (fst (turn TARGET st [rq])) (request_key rq) = builds st (request_key rq) + 1"
proof (cases "build_throws rq")
  case True
  show ?thesis
    by (simp add: turn_build_fail [OF assms True] builds_def)
next
  case False
  show ?thesis
    by (simp add: turn_build_ok [OF assms False] builds_def)
qed

lemma turn_build_unregisters:
  assumes "gifInFlight st (request_key rq) = None"
    and "\<not> fresh st (request_key rq) (date_now rq)"
  shows "gifInFlight (fst (turn TARGET st [rq])) = gifInFlight st"
proof (cases "build_throws rq")
  case True
  show ?thesis by (simp add: turn_build_fail [OF assms True])
next
  case False
  show ?thesis by (simp add: turn_build_ok [OF assms False])
qed

lemma dispatch_joiners:
  assumes "gifInFlight st k = Some p"
    and "\<forall>r \<in> set js. request_key r = k \<and> \<not> fresh st k (date_now r)"
  shows "dispatch TARGET st js = (st, replicate (length js) (Awaiting (Joiner k p)))"
  using assms(2)
proof (induction js)
  case Nil
  show ?case by simp
next
  case (Cons r js)
  then have k: "request_key r = k" and nf: "\<not> fresh st (request_key r) (date_now r)"
    by simp_all
  have a: "gif_arrive TARGET st r = (st, Awaiting (Joiner k p))"
    using gif_arrive_miss [OF nf] gif_miss_join [of st r p] assms(1) k by simp
  from Cons have "dispatch TARGET st js = (st, replicate (length js) (Awaiting (Joiner k p)))"
    by simp
  then show ?case by (simp add: a)
qed

lemma unregister_absent:
  "gifInFlight st k = None \<Longrightarrow> unregister k st = st\<lparr>trace := trace st @ [Unregister k]\<rparr>"
  by (simp add: unregister_def record_effect_def fun_upd_idem)

lemma drain_rejected_joiners:
  "gifInFlight st k = None \<Longrightarrow>
   drain st (replicate n (Awaiting (Joiner k Rejected))) =
     (st\<lparr>trace := trace st @ replicate n (Unregister k)\<rparr>, replicate n Status500)"
proof (induction n arbitrary: st)
  case 0
  show ?case by simp
next
  case (Suc n)
  let ?st1 = "st\<lparr>trace := trace st @ [Unregister k]\<rparr>"
  have a: "gifInFlight ?st1 k = None" using Suc.prems by simp
  have "drain ?st1 (replicate n (Awaiting (Joiner k Rejected))) =
     (?st1\<lparr>trace := trace ?st1 @ replicate n (Unregister k)\<rparr>, replicate n Status500)"
    by (rule Suc.IH [OF a])
  then show ?case
    by (simp add: unregister_absent [OF Suc.prems] replicate_app_Cons_same)
qed

lemma turn_shares_failed_build:
  assumes cold: "gifInFlight st (request_key r0) = None"
      "\<not> fresh st (request_key r0) (date_now r0)"
    and fail: "build_throws r0"
    and js: "\<forall>r \<in> set js. request_key r = request_key r0
               \<and> \<not> fresh st (request_key r0) (date_now r)"
  shows "turn TARGET st (r0 # js) =
    (st\<lparr>trace := trace st @ [Render (request_key r0), Register (request_key r0),
                              Unregister (request_key r0)]
                   @ replicate (length js) (Unregister (request_key r0))\<rparr>,
     replicate (Suc (length js)) Status500)"
proof -
  let ?k = "request_key r0"
  let ?st1 = "st\<lparr>gifInFlight := (gifInFlight st)(?k \<mapsto> Rejected),
                 trace := trace st @ [Render ?k, Register ?k]\<rparr>"
  let ?st2 = "st\<lparr>trace := trace st @ [Render ?k, Register ?k, Unregister ?k]\<rparr>"
  have a: "gif_arrive TARGET st r0 = (?st1, Awaiting (Owner ?k Rejected))"
    using gif_arrive_miss [OF cold(2)] gif_miss_build_fail [OF cold(1) fail] by simp
  have js1: "\<forall>r \<in> set js. request_key r = ?k \<and> \<not> fresh ?st1 ?k (date_now r)"
    using js by (simp add: fresh_def)
  have d: "dispatch TARGET ?st1 js = (?st1, replicate (length js) (Awaiting (Joiner ?k Rejected)))"
    by (rule dispatch_joiners [OF _ js1]) simp
  have u: "unregister ?k ?st1 = ?st2"
    using cold(1) by (simp add: unregister_def record_effect_def fun_upd_idem)
  have n2: "gifInFlight ?st2 ?k = None" using cold(1) by simp
  have dr: "drain ?st2 (replicate (length js) (Awaiting (Joiner ?k Rejected))) =
     (?st2\<lparr>trace := trace ?st2 @ replicate (length js) (Unregister ?k)\<rparr>,
      replicate (length js) Status500)"
    by (rule drain_rejected_joiners [OF n2])
  show ?thesis
    by (simp add: turn_def a d u dr)
qed

lemma dispatch_shared:
  assumes c: "gifCache st k = Some \<lparr>buf = b, expiresAt = t\<rparr>"
    and f: "gifInFlight st k = Some (Resolved b)"
    and js: "\<forall>r \<in> set js. request_key r = k"
  shows "fst (dispatch TARGET st js) = st
         \<and> length (snd (dispatch TARGET st js)) = length js
         \<and> set (snd (dispatch TARGET st js))
             \<subseteq> {Replied (Body b), Awaiting (Joiner k (Resolved b))}"
  using js
proof (induction js)
  case Nil
  show ?case by simp
next
  case (Cons r js)
  then have k: "request_key r = k" by simp
  have a: "gif_arrive TARGET st r = (st, Replied (Body b))
           \<or> gif_arrive TARGET st r = (st, Awaiting (Joiner k (Resolved b)))"
    using c f k by (simp add: gif_arrive_def gif_miss_def)
  from Cons have ih: "fst (dispatch TARGET st js) = st
         \<and> length (snd (dispatch TARGET st js)) = length js
         \<and> set (snd (dispatch TARGET st js))
             \<subseteq> {Replied (Body b), Awaiting (Joiner k (Resolved b))}"
    by simp
  from a show ?case
  proof
    assume "gif_arrive TARGET st r = (st, Replied (Body b))"
    then show ?thesis using ih by (simp add: split_beta)
  next
    assume "gif_arrive TARGET st r = (st, Awaiting (Joiner k (Resolved b)))"
    then show ?thesis using ih by (simp add: split_beta)
  qed
qed

lemma drain_shared:
  "set ocs \<subseteq> {Replied (Body b), Awaiting (Joiner k (Resolved b))} \<Longrightarrow>
   drain st ocs = (st, replicate (length ocs) (Body b))"
proof (induction ocs)
  case Nil
  show ?case by simp
next
  case (Cons oc ocs)
  then have ih: "drain st ocs = (st, replicate (length ocs) (Body b))" by simp
  from Cons.prems have "oc = Replied (Body b) \<or> oc = Awaiting (Joiner k (Resolved b))"
    by simp
  then show ?case using ih by auto
qed

lemma turn_shares_build:
  assumes cold: "gifInFlight st (request_key r0) = None"
      "\<not> fresh st (request_key r0) (date_now r0)"
    and ok: "\<not> build_throws r0"
    and js: "\<forall>r \<in> set js. request_key r = request_key r0"
  shows "turn TARGET st (r0 # js) =
    (st\<lparr>gifCache := (gifCache st)(request_key r0 \<mapsto>
            \<lparr>buf = buildCountdownGIF TARGET (build_clock r0) (param_w r0) (param_h r0) (param_s r0),
             expiresAt = date_now r0 + 60000\<rparr>),
         trace := trace st @ [Render (request_key r0), CacheSet (request_key r0),
                              Register (request_key r0), Unregister (request_key r0)]\<rparr>,
     replicate (Suc (length js))
       (Body (buildCountdownGIF TARGET (build_clock r0) (param_w r0) (param_h r0) (param_s r0))))"
proof -
  let ?k = "request_key r0"
  let ?b = "buildCountdownGIF TARGET (build_clock r0) (param_w r0) (param_h r0) (param_s r0)"
  let ?st1 = "st\<lparr>gifCache := (gifCache st)(?k \<mapsto> \<lparr>buf = ?b, expiresAt = date_now r0 + 60000\<rparr>),
                 gifInFlight := (gifInFlight st)(?k \<mapsto> Resolved ?b),
                 trace := trace st @ [Render ?k, CacheSet ?k, Register ?k]\<rparr>"
  have a: "gif_arrive TARGET st r0 = (?st1, Awaiting (Owner ?k (Resolved ?b)))"
    using gif_arrive_miss [OF cold(2)] gif_miss_build_ok [OF cold(1) ok] by simp
  have d: "fst (dispatch TARGET ?st1 js) = ?st1
         \<and> length (snd (dispatch TARGET ?st1 js)) = length js
         \<and> set (snd (dispatch TARGET ?st1 js))
             \<subseteq> {Replied (Body ?b), Awaiting (Joiner ?k (Resolved ?b))}"
    by (rule dispatch_shared [OF _ _ js]) simp_all
  have u: "unregister ?k ?st1 = st\<lparr>gifCache := (gifCache st)(?k \<mapsto>
            \<lparr>buf = ?b, expiresAt = date_now r0 + 60000\<rparr>),
         trace := trace st @ [Render ?k, CacheSet ?k, Register ?k, Unregister ?k]\<rparr>"
    using cold(1) by (simp add: unregister_def record_effect_def fun_upd_idem)
  obtain ocs where o: "dispatch TARGET ?st1 js = (?st1, ocs)"
    using d by (metis prod.collapse)
  have l: "length ocs = length js"
    and s: "set ocs \<subseteq> {Replied (Body ?b), Awaiting (Joiner ?k (Resolved ?b))}"
    using d o by simp_all
  show ?thesis
    by (simp add: turn_def a o u drain_shared [OF s] l)
qed

section \<open>What later turns find in flight\<close>

lemma gif_arrive_inflight:
  "dom (gifInFlight (fst (gif_arrive TARGET st rq)))
     \<subseteq> dom (gifInFlight st) \<union> set (owner_keys [snd (gif_arrive TARGET st rq)])"
  by (auto simp: gif_arrive_def gif_miss_def async_build_def record_effect_def Let_def
      split: option.splits if_splits)

lemma owner_keys_Cons: "set (owner_keys (oc # ocs)) = set (owner_keys [oc]) \<union> set (owner_keys ocs)"
  by (induction "oc # ocs" rule: owner_keys.induct) auto

lemma dispatch_inflight:
  "dom (gifInFlight (fst (dispatch TARGET st rqs)))
     \<subseteq> dom (gifInFlight st) \<union> set (owner_keys (snd (dispatch TARGET st rqs)))"
proof (induction rqs arbitrary: st)
  case Nil
  show ?case by simp
next
  case (Cons rq rqs)
  obtain st1 oc where a: "gif_arrive TARGET st rq = (st1, oc)" by (cases "gif_arrive TARGET st rq")
  obtain st2 ocs where d: "dispatch TARGET st1 rqs = (st2, ocs)" by (cases "dispatch TARGET st1 rqs")
  have 1: "dom (gifInFlight st1) \<subseteq> dom (gifInFlight st) \<union> set (owner_keys [oc])"
    using gif_arrive_inflight [of TARGET st rq] a by simp
  have 2: "dom (gifInFlight st2) \<subseteq> dom (gifInFlight st1) \<union> set (owner_keys ocs)"
    using Cons [of st1] d by simp
  have "dom (gifInFlight st2) \<subseteq> dom (gifInFlight st) \<union> set (owner_keys (oc # ocs))"
    using 1 2 owner_keys_Cons [of oc ocs] by blast
  then show ?case by (simp add: a d)
qed

lemma gif_resume_inflight:
  "dom (gifInFlight (fst (gif_resume st k)))
     \<subseteq> dom (gifInFlight st) - set (owner_keys [Awaiting k])"
  by (induction st k rule: gif_resume.induct)
     (auto simp: unregister_def record_effect_def split: if_splits)

lemma drain_inflight:
  "dom (gifInFlight (fst (drain st ocs))) \<subseteq> dom (gifInFlight st) - set (owner_keys ocs)"
proof (induction st ocs rule: drain.induct)
  case (1 st)
  show ?case by simp
next
  case (2 st r ocs)
  then show ?case by (simp add: split_beta)
next
  case (3 st k ocs)
  obtain st1 r where a: "gif_resume st k = (st1, r)" by (cases "gif_resume st k")
  have 1: "dom (gifInFlight st1) \<subseteq> dom (gifInFlight st) - set (owner_keys [Awaiting k])"
    using gif_resume_inflight [of st k] a by simp
  have 2: "dom (gifInFlight (fst (drain st1 ocs))) \<subseteq> dom (gifInFlight st1) - set (owner_keys ocs)"
    using 3 [of "(st1, r)" st1 r] a by simp
  have "dom (gifInFlight (fst (drain st1 ocs)))
          \<subseteq> dom (gifInFlight st) - set (owner_keys (Awaiting k # ocs))"
    using 1 2 owner_keys_Cons [of "Awaiting k" ocs] by blast
  then show ?case by (simp add: a split_beta)
qed

lemma turn_leaves_nothing_in_flight:
  assumes "gifInFlight st = Map.empty"
  shows "gifInFlight (fst (turn TARGET st rqs)) = Map.empty"
proof -
  obtain st1 ocs where d: "dispatch TARGET st rqs = (st1, ocs)" by (cases "dispatch TARGET st rqs")
  have 1: "dom (gifInFlight st1) \<subseteq> set (owner_keys ocs)"
    using dispatch_inflight [of TARGET st rqs] d assms by simp
  have 2: "dom (gifInFlight (fst (drain st1 ocs))) \<subseteq> dom (gifInFlight st1) - set (owner_keys ocs)"
    by (rule drain_inflight)
  have "dom (gifInFlight (fst (drain st1 ocs))) = {}" using 1 2 by blast
  then show ?thesis by (simp add: turn_def d)
qed

lemma serve_leaves_nothing_in_flight:
  "gifInFlight st = Map.empty \<Longrightarrow> gifInFlight (fst (serve TARGET st turns)) = Map.empty"
proof (induction turns arbitrary: st)
  case Nil
  then show ?case by simp
next
  case (Cons rqs turns)
  have "gifInFlight (fst (turn TARGET st rqs)) = Map.empty"
    by (rule turn_leaves_nothing_in_flight [OF Cons.prems])
  then have "gifInFlight (fst (serve TARGET (fst (turn TARGET st rqs)) turns)) = Map.empty"
    by (rule Cons.IH)
  then show ?case by (simp add: split_beta)
qed

lemma first_of_turn_never_joins:
  "gifInFlight st = Map.empty \<Longrightarrow> snd (gif_arrive TARGET st rq) \<noteq> Awaiting (Joiner k p)"
  by (auto simp: gif_arrive_def gif_miss_def async_build_def record_effect_def Let_def
      split: option.splits if_splits)

lemma plain_request_params:
  "param_w (plain_request now clock throws) = Num 640"
  "param_h (plain_request now clock throws) = Num 200"
  "param_s (plain_request now clock throws) = Num 60"
  by (simp_all add: plain_request_def param_w_def param_h_def param_s_def clamp_param_def
      parseInt10_examples)

lemma plain_request_key: "request_key (plain_request now clock throws) = ''640x200_s60''"
proof -
  have "gifKey (Num 640) (Num 200) (Num 60) = ''640x200_s60''" by code_simp
  then show ?thesis by (simp add: request_key_def plain_request_params)
qed

lemma plain_request_fields:
  "date_now (plain_request now clock throws) = now"
  "build_clock (plain_request now clock throws) = clock"
  "build_throws (plain_request now clock throws) = throws"
  by (simp_all add: plain_request_def)

lemma start_server_cold:
  "gifInFlight start_server k = None" "\<not> fresh start_server k t"
  by (simp_all add: start_server_def fresh_def)

lemma start_server_trace: "trace start_server = []"
  by (simp add: start_server_def)

text \<open>
  C1.  The property asked for: requests for one key that are under way at the same time
  lead to exactly one call of \<^verbatim>\<open>buildCountdownGIF\<close>, and all of them get the same bytes or
  the same failure.  Requests started in one turn of the loop do share one build
  (\<open>turn_shares_build\<close>, \<open>turn_shares_failed_build\<close>).  Requests on separate connections
  do not: the build runs inside the first handler before anything is registered, the
  registration is removed again before the loop takes the next request
  (\<open>turn_leaves_nothing_in_flight\<close>), and the handler of the next request never finds a
  build to wait for (\<open>first_of_turn_never_joins\<close>).  When the build succeeds the cache
  answers the later requests; when it throws, each request builds again.  Here two
  requests without a query, the second received while the first is being built, with a
  canvas that throws: \<^verbatim>\<open>buildCountdownGIF\<close> is called twice.
\<close>

theorem failing_builds_are_repeated:
  "builds (fst (serve 1769848200000 start_server
       [[plain_request 1769000000000 1769000000001 True],
        [plain_request 1769000000002 1769000000003 True]])) ''640x200_s60'' = 2
   \<and> snd (serve 1769848200000 start_server
       [[plain_request 1769000000000 1769000000001 True],
        [plain_request 1769000000002 1769000000003 True]]) = [[Status500], [Status500]]"
proof -
  let ?k = "''640x200_s60''"
  let ?r1 = "plain_request 1769000000000 1769000000001 True"
  let ?r2 = "plain_request 1769000000002 1769000000003 True"
  let ?st1 = "start_server\<lparr>trace := [Render ?k, Register ?k, Unregister ?k]\<rparr>"
  let ?st2 = "start_server\<lparr>trace := [Render ?k, Register ?k, Unregister ?k,
                                        Render ?k, Register ?k, Unregister ?k]\<rparr>"
  have t1: "turn 1769848200000 start_server [?r1] = (?st1, [Status500])"
    using turn_build_fail [of start_server ?r1 1769848200000]
    by (simp add: plain_request_key plain_request_fields start_server_cold start_server_trace)
  have c1: "gifInFlight ?st1 ?k = None" "\<not> fresh ?st1 ?k 1769000000002"
    using start_server_cold by (simp_all add: fresh_def)
  have t2: "turn 1769848200000 ?st1 [?r2] = (?st2, [Status500])"
    using turn_build_fail [of ?st1 ?r2 1769848200000] c1
    by (simp add: plain_request_key plain_request_fields)
  have b: "builds ?st2 ?k = 2"
    by (simp add: builds_def)
  show ?thesis
    by (simp add: t1 t2 b)
qed

text \<open>
  C4.  The property asked for: when a build is started, its handle is put into
  \<^verbatim>\<open>gifInFlight\<close> before the rendering of \<^verbatim>\<open>buildCountdownGIF\<close> begins.  On the code the
  order is the other way round (\<open>gif_miss_build_ok\<close>, \<open>gif_miss_build_fail\<close>): the \<^verbatim>\<open>async\<close>
  function of lines 399--403 has no \<^verbatim>\<open>await\<close>, so the call on line 403 renders the whole
  animation and stores it in the cache before line 405 registers the promise.  For the
  first request of a fresh server the effects are, in order: render, cache, register.
\<close>

theorem build_runs_before_registration:
  "gifInFlight start_server ''640x200_s60'' = None
   \<and> trace (fst (gif_arrive 1769848200000 start_server
                   (plain_request 1769000000000 1769000000001 False)))
       = [Render ''640x200_s60'', CacheSet ''640x200_s60'', Register ''640x200_s60'']"
proof -
  let ?r = "plain_request 1769000000000 1769000000001 False"
  have m: "gif_arrive 1769848200000 start_server ?r = gif_miss 1769848200000 start_server ?r"
    by (rule gif_arrive_miss) (rule start_server_cold)
  have "trace (fst (gif_miss 1769848200000 start_server ?r))
          = trace start_server @ [Render (request_key ?r), CacheSet (request_key ?r),
                                  Register (request_key ?r)]"
    using gif_miss_build_ok [of start_server ?r 1769848200000]
    by (simp add: start_server_cold plain_request_fields)
  then show ?thesis
    by (simp add: m plain_request_key start_server_trace start_server_cold)
qed

section \<open>Expiry of cached animations\<close>

lemma gif_arrive_replied_iff:
  "(snd (gif_arrive TARGET st rq) = Replied r) =
     (\<exists>e. gifCache st (request_key rq) = Some e \<and> date_now rq < expiresAt e \<and> r = Body (buf e))"
  by (auto simp: gif_arrive_def gif_miss_def async_build_def record_effect_def Let_def
      split: option.splits if_splits)

lemma gif_arrive_join:
  assumes "\<not> fresh st (request_key rq) (date_now rq)"
    and "gifInFlight st (request_key rq) = Some p"
  shows "gif_arrive TARGET st rq = (st, Awaiting (Joiner (request_key rq) p))"
  using gif_arrive_miss [OF assms(1)] gif_miss_join [OF assms(2)] by simp

text \<open>
  C2, as stated, says that a request arriving at or after the expiry of the cached entry
  triggers a new build.  A request that finds a build for its key registered in
  \<^verbatim>\<open>gifInFlight\<close> waits for that build instead (lines 388--391).  Two requests without a
  query whose handlers start in the same turn: the first builds and stores its animation
  with \<open>expiresAt = 1769000060000\<close>; the second, at the instant 1769000060000, finds the
  entry expired and the promise of the first registered, makes no build and gets the
  animation of the first.
\<close>

theorem expired_entry_joins_registered_build:
  "gifCache (fst (gif_arrive 1769848200000 start_server
                    (plain_request 1769000000000 1769000000001 False))) ''640x200_s60''
     = Some \<lparr>buf = buildCountdownGIF 1769848200000 1769000000001 (Num 640) (Num 200) (Num 60),
             expiresAt = 1769000060000\<rparr>
   \<and> date_now (plain_request 1769000060000 1769000060001 False) = 1769000060000
   \<and> gif_arrive 1769848200000
        (fst (gif_arrive 1769848200000 start_server
                (plain_request 1769000000000 1769000000001 False)))
        (plain_request 1769000060000 1769000060001 False)
     = (fst (gif_arrive 1769848200000 start_server
                (plain_request 1769000000000 1769000000001 False)),
        Awaiting (Joiner ''640x200_s60''
          (Resolved (buildCountdownGIF 1769848200000 1769000000001 (Num 640) (Num 200) (Num 60)))))
   \<and> snd (turn 1769848200000 start_server
        [plain_request 1769000000000 1769000000001 False,
         plain_request 1769000060000 1769000060001 False])
     = [Body (buildCountdownGIF 1769848200000 1769000000001 (Num 640) (Num 200) (Num 60)),
        Body (buildCountdownGIF 1769848200000 1769000000001 (Num 640) (Num 200) (Num 60))]
   \<and> builds (fst (turn 1769848200000 start_server
        [plain_request 1769000000000 1769000000001 False,
         plain_request 1769000060000 1769000060001 False])) ''640x200_s60'' = 1"
proof -
  let ?k = "''640x200_s60''"
  let ?rA = "plain_request 1769000000000 1769000000001 False"
  let ?rB = "plain_request 1769000060000 1769000060001 False"
  let ?b = "buildCountdownGIF 1769848200000 1769000000001 (Num 640) (Num 200) (Num 60)"
  let ?st1 = "start_server\<lparr>gifCache := (gifCache start_server)(?k \<mapsto>
                  \<lparr>buf = ?b, expiresAt = 1769000060000\<rparr>),
                gifInFlight := (gifInFlight start_server)(?k \<mapsto> Resolved ?b),
                trace := [Render ?k, CacheSet ?k, Register ?k]\<rparr>"
  have m: "gif_arrive 1769848200000 start_server ?rA = gif_miss 1769848200000 start_server ?rA"
    by (rule gif_arrive_miss) (rule start_server_cold)
  have a: "gif_arrive 1769848200000 start_server ?rA = (?st1, Awaiting (Owner ?k (Resolved ?b)))"
    using gif_miss_build_ok [of start_server ?rA 1769848200000]
    by (simp add: m plain_request_key plain_request_fields plain_request_params
        start_server_cold start_server_trace)
  have nf: "\<not> fresh ?st1 (request_key ?rB) (date_now ?rB)"
    by (simp add: fresh_def plain_request_key plain_request_fields)
  have j: "gif_arrive 1769848200000 ?st1 ?rB = (?st1, Awaiting (Joiner ?k (Resolved ?b)))"
    using gif_arrive_miss [OF nf] gif_miss_join [of ?st1 ?rB "Resolved ?b" 1769848200000]
    by (simp add: plain_request_key)
  have t: "turn 1769848200000 start_server [?rA, ?rB] =
      (start_server\<lparr>gifCache := (gifCache start_server)(?k \<mapsto>
                  \<lparr>buf = ?b, expiresAt = 1769000060000\<rparr>),
                trace := [Render ?k, CacheSet ?k, Register ?k, Unregister ?k]\<rparr>,
       [Body ?b, Body ?b])"
    using turn_shares_build [of start_server ?rA "[?rB]" 1769848200000]
    by (simp add: plain_request_key plain_request_fields plain_request_params
        start_server_cold start_server_trace)
  have c: "gifCache ?st1 ?k = Some \<lparr>buf = ?b, expiresAt = 1769000060000\<rparr>" by simp
  show ?thesis
    by (simp add: a j t c plain_request_fields builds_def)
qed

text \<open>
  C2, amended.  A cached animation is served exactly while the instant of the request is
  strictly before \<open>expiresAt\<close>.  A request that builds stores its animation with
  \<open>expiresAt = now + 60000\<close>; a later request for the same key with an instant below that
  gets the stored animation and leaves the server as it was, so \<^verbatim>\<open>buildCountdownGIF\<close> is not
  called.  A request at that instant or after it calls \<^verbatim>\<open>buildCountdownGIF\<close> once more when
  no build for its key is registered in \<^verbatim>\<open>gifInFlight\<close>, as for every request that starts a
  later turn; when a build is registered it waits for that one and makes none, so requests
  for the key started in the same turn as the building request all get its animation,
  whatever their instants, from one call of \<^verbatim>\<open>buildCountdownGIF\<close>.  Conjuncts five to seven
  are about any state of the server: a handler answers from the cache if and only if the
  entry of its key has \<open>expiresAt\<close> above the instant of the request; without such an entry
  it builds if nothing is registered and joins if something is.
\<close>

theorem cached_gif_served_until_expiry:
  assumes cold: "gifInFlight st (request_key r0) = None"
      "\<not> fresh st (request_key r0) (date_now r0)"
    and ok: "\<not> build_throws r0"
    and same: "request_key r1 = request_key r0"
  shows "snd (turn TARGET st [r0]) =
           [Body (buildCountdownGIF TARGET (build_clock r0) (param_w r0) (param_h r0) (param_s r0))]
     \<and> gifCache (fst (turn TARGET st [r0])) (request_key r0) =
           Some \<lparr>buf = buildCountdownGIF TARGET (build_clock r0) (param_w r0) (param_h r0) (param_s r0),
                 expiresAt = date_now r0 + 60000\<rparr>
     \<and> (date_now r1 < date_now r0 + 60000 \<longrightarrow>
          turn TARGET (fst (turn TARGET st [r0])) [r1] =
            (fst (turn TARGET st [r0]),
             [Body (buildCountdownGIF TARGET (build_clock r0) (param_w r0) (param_h r0) (param_s r0))]))
     \<and> (date_now r0 + 60000 \<le> date_now r1 \<longrightarrow>
          builds (fst (turn TARGET (fst (turn TARGET st [r0])) [r1])) (request_key r0) =
            builds (fst (turn TARGET st [r0])) (request_key r0) + 1)
     \<and> (\<forall>st' rq r. (snd (gif_arrive TARGET st' rq) = Replied r) =
          (\<exists>e. gifCache st' (request_key rq) = Some e \<and> date_now rq < expiresAt e
                \<and> r = Body (buf e)))
     \<and> (\<forall>st' rq. gifInFlight st' (request_key rq) = None
            \<longrightarrow> \<not> fresh st' (request_key rq) (date_now rq)
            \<longrightarrow> builds (fst (turn TARGET st' [rq])) (request_key rq)
                  = builds st' (request_key rq) + 1)
     \<and> (\<forall>st' rq p. \<not> fresh st' (request_key rq) (date_now rq)
            \<longrightarrow> gifInFlight st' (request_key rq) = Some p
            \<longrightarrow> gif_arrive TARGET st' rq = (st', Awaiting (Joiner (request_key rq) p)))
     \<and> ((\<forall>r \<in> set js. request_key r = request_key r0) \<longrightarrow>
          turn TARGET st (r0 # js) =
            (fst (turn TARGET st [r0]),
             replicate (Suc (length js))
               (Body (buildCountdownGIF TARGET (build_clock r0) (param_w r0) (param_h r0)
                        (param_s r0)))))"
proof -
  let ?k = "request_key r0"
  let ?b = "buildCountdownGIF TARGET (build_clock r0) (param_w r0) (param_h r0) (param_s r0)"
  let ?e = "\<lparr>buf = ?b, expiresAt = date_now r0 + 60000\<rparr>"
  let ?st1 = "st\<lparr>gifCache := (gifCache st)(?k \<mapsto> ?e),
                 trace := trace st @ [Render ?k, CacheSet ?k, Register ?k, Unregister ?k]\<rparr>"
  have t: "turn TARGET st [r0] = (?st1, [Body ?b])"
    by (rule turn_build_ok [OF cold ok])
  have c: "gifCache ?st1 (request_key r1) = Some ?e" by (simp add: same)
  have f: "gifInFlight ?st1 (request_key r1) = None" using cold(1) by (simp add: same)
  have hit: "date_now r1 < date_now r0 + 60000 \<longrightarrow> turn TARGET ?st1 [r1] = (?st1, [Body ?b])"
  proof
    assume "date_now r1 < date_now r0 + 60000"
    then have "date_now r1 < expiresAt ?e" by simp
    from turn_hit [OF c this] show "turn TARGET ?st1 [r1] = (?st1, [Body ?b])" by simp
  qed
  have late: "date_now r0 + 60000 \<le> date_now r1 \<longrightarrow>
      builds (fst (turn TARGET ?st1 [r1])) ?k = builds ?st1 ?k + 1"
  proof
    assume "date_now r0 + 60000 \<le> date_now r1"
    then have nf: "\<not> fresh ?st1 (request_key r1) (date_now r1)"
      by (simp add: fresh_def same)
    from turn_build_counts [OF f nf]
    show "builds (fst (turn TARGET ?st1 [r1])) ?k = builds ?st1 ?k + 1" by (simp add: same)
  qed
  have 1: "snd (turn TARGET st [r0]) = [Body ?b]" by (simp add: t)
  have 2: "gifCache (fst (turn TARGET st [r0])) ?k = Some ?e" by (simp add: t)
  have 3: "fst (turn TARGET st [r0]) = ?st1" by (simp add: t)
  have 4: "\<forall>st' rq r. (snd (gif_arrive TARGET st' rq) = Replied r) =
          (\<exists>e. gifCache st' (request_key rq) = Some e \<and> date_now rq < expiresAt e
                \<and> r = Body (buf e))"
    by (intro allI) (rule gif_arrive_replied_iff)
  have hit': "date_now r1 < date_now r0 + 60000 \<longrightarrow>
          turn TARGET (fst (turn TARGET st [r0])) [r1] = (fst (turn TARGET st [r0]), [Body ?b])"
    using hit by (simp only: 3)
  have late': "date_now r0 + 60000 \<le> date_now r1 \<longrightarrow>
          builds (fst (turn TARGET (fst (turn TARGET st [r0])) [r1])) ?k =
            builds (fst (turn TARGET st [r0])) ?k + 1"
    using late by (simp only: 3)
  have 5: "\<forall>st' rq. gifInFlight st' (request_key rq) = None
            \<longrightarrow> \<not> fresh st' (request_key rq) (date_now rq)
            \<longrightarrow> builds (fst (turn TARGET st' [rq])) (request_key rq)
                  = builds st' (request_key rq) + 1"
    by (intro allI impI) (rule turn_build_counts)
  have 6: "\<forall>st' rq p. \<not> fresh st' (request_key rq) (date_now rq)
            \<longrightarrow> gifInFlight st' (request_key rq) = Some p
            \<longrightarrow> gif_arrive TARGET st' rq = (st', Awaiting (Joiner (request_key rq) p))"
    by (intro allI impI) (rule gif_arrive_join)
  have 7: "(\<forall>r \<in> set js. request_key r = request_key r0) \<longrightarrow>
          turn TARGET st (r0 # js) =
            (fst (turn TARGET st [r0]), replicate (Suc (length js)) (Body ?b))"
  proof
    assume js: "\<forall>r \<in> set js. request_key r = request_key r0"
    show "turn TARGET st (r0 # js) =
            (fst (turn TARGET st [r0]), replicate (Suc (length js)) (Body ?b))"
      unfolding 3 by (rule turn_shares_build [OF cold ok js])
  qed
  show ?thesis
    by (rule conjI [OF 1 conjI [OF 2 conjI [OF hit' conjI [OF late' conjI [OF 4
          conjI [OF 5 conjI [OF 6 7]]]]]]])
qed

theorem cached_gif_served_until_expiry_witness:
  "turn 1769848200000
       (fst (turn 1769848200000 start_server [plain_request 1769000000000 1769000000001 False]))
       [plain_request 1769000059999 1769000060000 False]
     = (fst (turn 1769848200000 start_server [plain_request 1769000000000 1769000000001 False]),
        [Body (buildCountdownGIF 1769848200000 1769000000001 (Num 640) (Num 200) (Num 60))])
   \<and> builds (fst (turn 1769848200000
       (fst (turn 1769848200000 start_server [plain_request 1769000000000 1769000000001 False]))
       [plain_request 1769000060000 1769000060001 False])) ''640x200_s60''
     = builds (fst (turn 1769848200000 start_server
          [plain_request 1769000000000 1769000000001 False])) ''640x200_s60'' + 1
   \<and> turn 1769848200000 start_server
        [plain_request 1769000000000 1769000000001 False,
         plain_request 1769000070000 1769000070001 True]
     = (fst (turn 1769848200000 start_server [plain_request 1769000000000 1769000000001 False]),
        [Body (buildCountdownGIF 1769848200000 1769000000001 (Num 640) (Num 200) (Num 60)),
         Body (buildCountdownGIF 1769848200000 1769000000001 (Num 640) (Num 200) (Num 60))])"
  using cached_gif_served_until_expiry
          [of start_server "plain_request 1769000000000 1769000000001 False"
              "plain_request 1769000059999 1769000060000 False" 1769848200000
              "[plain_request 1769000070000 1769000070001 True]"]
        cached_gif_served_until_expiry
          [of start_server "plain_request 1769000000000 1769000000001 False"
              "plain_request 1769000060000 1769000060001 False" 1769848200000 "[]"]
  by (simp add: plain_request_key plain_request_fields plain_request_params start_server_cold)

section \<open>Failed builds\<close>

text \<open>
  C3, as stated, says that after a build for a key has thrown \<^verbatim>\<open>gifCache\<close> holds no entry
  for the key.  Entries are never deleted from \<^verbatim>\<open>gifCache\<close>, only overwritten, so an entry
  that has expired is still there after the failed rebuild: a first request at instant
  \<open>t\<close> builds and caches, a second at \<open>t + 60000\<close> rebuilds, fails and answers 500, and
  the map still holds the first animation.
\<close>

theorem failed_build_keeps_expired_entry:
  "build_throws (plain_request 1769000060000 1769000060001 True)
   \<and> snd (serve 1769848200000 start_server
        [[plain_request 1769000000000 1769000000001 False],
         [plain_request 1769000060000 1769000060001 True]])
       = [[Body (buildCountdownGIF 1769848200000 1769000000001 (Num 640) (Num 200) (Num 60))],
          [Status500]]
   \<and> gifCache (fst (serve 1769848200000 start_server
        [[plain_request 1769000000000 1769000000001 False],
         [plain_request 1769000060000 1769000060001 True]])) ''640x200_s60''
       = Some \<lparr>buf = buildCountdownGIF 1769848200000 1769000000001 (Num 640) (Num 200) (Num 60),
               expiresAt = 1769000060000\<rparr>
   \<and> gifCache (fst (serve 1769848200000 start_server
        [[plain_request 1769000000000 1769000000001 False],
         [plain_request 1769000060000 1769000060001 True]])) ''640x200_s60'' \<noteq> None"
proof -
  let ?k = "''640x200_s60''"
  let ?rA = "plain_request 1769000000000 1769000000001 False"
  let ?rB = "plain_request 1769000060000 1769000060001 True"
  let ?b = "buildCountdownGIF 1769848200000 1769000000001 (Num 640) (Num 200) (Num 60)"
  let ?st1 = "start_server\<lparr>gifCache := (gifCache start_server)(?k \<mapsto>
                  \<lparr>buf = ?b, expiresAt = 1769000060000\<rparr>),
                trace := [Render ?k, CacheSet ?k, Register ?k, Unregister ?k]\<rparr>"
  let ?st2 = "start_server\<lparr>gifCache := (gifCache start_server)(?k \<mapsto>
                  \<lparr>buf = ?b, expiresAt = 1769000060000\<rparr>),
                trace := [Render ?k, CacheSet ?k, Register ?k, Unregister ?k,
                          Render ?k, Register ?k, Unregister ?k]\<rparr>"
  have t1: "turn 1769848200000 start_server [?rA] = (?st1, [Body ?b])"
    using turn_build_ok [of start_server ?rA 1769848200000]
    by (simp add: plain_request_key plain_request_fields plain_request_params
        start_server_cold start_server_trace)
  have c1: "gifInFlight ?st1 ?k = None" "\<not> fresh ?st1 ?k 1769000060000"
    using start_server_cold by (simp_all add: fresh_def)
  have t2: "turn 1769848200000 ?st1 [?rB] = (?st2, [Status500])"
    using turn_build_fail [of ?st1 ?rB 1769848200000] c1
    by (simp add: plain_request_key plain_request_fields)
  show ?thesis
    by (simp add: t1 t2 plain_request_fields)
qed

text \<open>
  C3, amended.  If the build of a request throws, then after the turn \<^verbatim>\<open>gifCache\<close> is
  exactly what it was before (nothing is stored for the key, and the entries of all keys,
  an expired one for this key included, are untouched), \<^verbatim>\<open>gifInFlight\<close> is what it was
  before and holds no entry for the key, the request and every request that waited for its
  build answer with status 500, \<^verbatim>\<open>buildCountdownGIF\<close> has been called once, and the next
  request for the key calls it again.  The registration is removed after every build,
  whether it threw or not: a turn that builds leaves \<^verbatim>\<open>gifInFlight\<close> as it found it.
\<close>

theorem failed_build_changes_nothing:
  assumes cold: "gifInFlight st (request_key r0) = None"
      "\<not> fresh st (request_key r0) (date_now r0)"
    and fail: "build_throws r0"
    and js: "\<forall>r \<in> set js. request_key r = request_key r0
               \<and> \<not> fresh st (request_key r0) (date_now r)"
    and nxt: "request_key r2 = request_key r0" "\<not> fresh st (request_key r0) (date_now r2)"
  shows "snd (turn TARGET st (r0 # js)) = replicate (Suc (length js)) Status500
     \<and> gifCache (fst (turn TARGET st (r0 # js))) = gifCache st
     \<and> gifInFlight (fst (turn TARGET st (r0 # js))) = gifInFlight st
     \<and> gifInFlight (fst (turn TARGET st (r0 # js))) (request_key r0) = None
     \<and> builds (fst (turn TARGET st (r0 # js))) (request_key r0) = builds st (request_key r0) + 1
     \<and> builds (fst (turn TARGET (fst (turn TARGET st (r0 # js))) [r2])) (request_key r0)
         = builds st (request_key r0) + 2
     \<and> (\<forall>st' rq. gifInFlight st' (request_key rq) = None
            \<longrightarrow> \<not> fresh st' (request_key rq) (date_now rq)
            \<longrightarrow> gifInFlight (fst (turn TARGET st' [rq])) = gifInFlight st')"
proof -
  let ?k = "request_key r0"
  let ?st1 = "st\<lparr>trace := trace st @ [Render ?k, Register ?k, Unregister ?k]
                   @ replicate (length js) (Unregister ?k)\<rparr>"
  have t: "turn TARGET st (r0 # js) = (?st1, replicate (Suc (length js)) Status500)"
    by (rule turn_shares_failed_build [OF cold fail js])
  have b1: "builds ?st1 ?k = builds st ?k + 1"
    by (simp add: builds_def count_list_replicate_other)
  have f: "gifInFlight ?st1 (request_key r2) = None" using cold(1) nxt(1) by simp
  have nf: "\<not> fresh ?st1 (request_key r2) (date_now r2)"
    using nxt by (simp add: fresh_def)
  have b2: "builds (fst (turn TARGET ?st1 [r2])) ?k = builds ?st1 ?k + 1"
    using turn_build_counts [OF f nf] by (simp add: nxt(1))
  have u: "\<forall>st' rq. gifInFlight st' (request_key rq) = None
            \<longrightarrow> \<not> fresh st' (request_key rq) (date_now rq)
            \<longrightarrow> gifInFlight (fst (turn TARGET st' [rq])) = gifInFlight st'"
    by (intro allI impI) (rule turn_build_unregisters)
  have main: "snd (turn TARGET st (r0 # js)) = replicate (Suc (length js)) Status500
     \<and> gifCache (fst (turn TARGET st (r0 # js))) = gifCache st
     \<and> gifInFlight (fst (turn TARGET st (r0 # js))) = gifInFlight st
     \<and> gifInFlight (fst (turn TARGET st (r0 # js))) (request_key r0) = None
     \<and> builds (fst (turn TARGET st (r0 # js))) (request_key r0) = builds st (request_key r0) + 1
     \<and> builds (fst (turn TARGET (fst (turn TARGET st (r0 # js))) [r2])) (request_key r0)
         = builds st (request_key r0) + 2"
    using cold(1) b1 b2 by (simp add: t)
  from main u show ?thesis by blast
qed

theorem failed_build_changes_nothing_witness:
  "snd (turn 1769848200000 start_server
         [plain_request 1769000000000 1769000000001 True,
          plain_request 1769000000002 1769000000003 False]) = [Status500, Status500]
   \<and> gifCache (fst (turn 1769848200000 start_server
         [plain_request 1769000000000 1769000000001 True,
          plain_request 1769000000002 1769000000003 False])) = Map.empty
   \<and> gifInFlight (fst (turn 1769848200000 start_server
         [plain_request 1769000000000 1769000000001 True,
          plain_request 1769000000002 1769000000003 False])) ''640x200_s60'' = None
   \<and> builds (fst (turn 1769848200000 start_server
         [plain_request 1769000000000 1769000000001 True,
          plain_request 1769000000002 1769000000003 False])) ''640x200_s60'' = 1
   \<and> builds (fst (turn 1769848200000 (fst (turn 1769848200000 start_server
         [plain_request 1769000000000 1769000000001 True,
          plain_request 1769000000002 1769000000003 False]))
         [plain_request 1769000000004 1769000000005 False])) ''640x200_s60'' = 2
   \<and> gifInFlight (fst (turn 1769848200000 start_server
         [plain_request 1769000000000 1769000000001 False])) = gifInFlight start_server"
proof -
  have e: "gifCache start_server = Map.empty" by (simp add: start_server_def)
  have b: "builds start_server ''640x200_s60'' = 0" by (simp add: builds_def start_server_trace)
  show ?thesis
    using failed_build_changes_nothing
          [of start_server "plain_request 1769000000000 1769000000001 True"
              "[plain_request 1769000000002 1769000000003 False]"
              "plain_request 1769000000004 1769000000005 False" 1769848200000]
    by (simp add: plain_request_key plain_request_fields start_server_cold e b)
qed

end
